theory Spec2Isabelle
  imports Complex_Main
begin

section \<open>Siamese MNIST example: pair sampling, accuracy and aggregation classifier\<close>

text \<open>
  A shallow embedding of \<^verbatim>\<open>one_shot_learning/keras/siamese_mnist.py\<close>.
  Conventions:
  \<^item> a raised Python exception is the left summand of \<open>error + 'a\<close>;
  \<^item> numpy arrays are lists; example indices (the output of \<^verbatim>\<open>np.where\<close>) are \<open>nat\<close>;
  \<^item> the process-wide numpy random generator is an explicit source \<open>src :: nat \<Rightarrow> nat\<close>
    of raw draws together with the number \<open>k\<close> of draws consumed so far;
  \<^item> scores are real numbers: rounding, infinities and NaN inside the scores are not
    modelled. The NaN that numpy returns for the mean of an empty array is \<open>None\<close>.
\<close>

subsection \<open>Exceptions and sequencing\<close>

datatype error = IndexError | ValueError | Exception string

definition ebind :: "error + 'a \<Rightarrow> ('a \<Rightarrow> error + 'b) \<Rightarrow> error + 'b" where
  "ebind m f = (case m of Inl e \<Rightarrow> Inl e | Inr v \<Rightarrow> f v)"

text \<open>A \<^verbatim>\<open>for\<close> loop over a list whose body may raise: the first exception ends the loop.\<close>

fun efold :: "('b \<Rightarrow> 's \<Rightarrow> error + 's) \<Rightarrow> 'b list \<Rightarrow> 's \<Rightarrow> error + 's" where
  "efold f [] s = Inr s"
| "efold f (b # bs) s = (case f b s of Inl e \<Rightarrow> Inl e | Inr s' \<Rightarrow> efold f bs s')"

text \<open>Indexing \<^verbatim>\<open>xs[i]\<close> with a non-negative index: out of range raises IndexError.\<close>

definition getitem :: "'a list \<Rightarrow> nat \<Rightarrow> error + 'a" where
  "getitem xs i = (if i < length xs then Inr (xs ! i) else Inl IndexError)"

subsection \<open>Module constants\<close>

definition DISTANCE_THRESHOLD :: real where
  "DISTANCE_THRESHOLD = 0.50"

definition NUM_CLASSES :: nat where
  "NUM_CLASSES = 10"

subsection \<open>The random source\<close>

text \<open>
  \<^verbatim>\<open>np.random.randint(low, high)\<close> returns an integer of the half-open range
  \<open>[low, high)\<close> and raises ValueError when \<open>low >= high\<close>. The \<open>k\<close>-th raw draw of the
  source is reduced into the range, so every value of the range is a possible outcome.
\<close>

definition randint :: "(nat \<Rightarrow> nat) \<Rightarrow> nat \<Rightarrow> nat \<Rightarrow> nat \<Rightarrow> error + nat" where
  "randint src k low high =
     (if low < high then Inr (low + src k mod (high - low)) else Inl ValueError)"

subsection \<open>create_pairs\<close>

text \<open>
  The loop state is \<open>(pairs, labels, k)\<close>: the two Python lists and the number of draws
  consumed. One execution of the body of the innermost loop (lines 58 to 66):
\<close>

type_synonym 'a pair_state = "('a \<times> 'a) list \<times> int list \<times> nat"

definition pair_body ::
  "'a list \<Rightarrow> nat list list \<Rightarrow> (nat \<Rightarrow> nat) \<Rightarrow> nat \<Rightarrow> nat \<Rightarrow> nat \<Rightarrow> 'a pair_state \<Rightarrow> error + 'a pair_state"
where
  "pair_body x digit_indices src d i j s =
     (case s of (pairs, labels, k) \<Rightarrow>
        ebind (getitem digit_indices d) (\<lambda>pool_d.
        ebind (getitem pool_d i) (\<lambda>z1.
        ebind (getitem pool_d j) (\<lambda>z2.
        ebind (getitem x z1) (\<lambda>a.
        ebind (getitem x z2) (\<lambda>b.
        ebind (randint src k 1 NUM_CLASSES) (\<lambda>rand_inc.
        ebind (randint src (k + 1) 0 (length pool_d)) (\<lambda>rand_idx.
        let dn = (d + rand_inc) mod NUM_CLASSES in
        ebind (getitem digit_indices dn) (\<lambda>pool_dn.
        ebind (getitem pool_d i) (\<lambda>z1'.
        ebind (getitem pool_dn rand_idx) (\<lambda>z2'.
        ebind (getitem x z1') (\<lambda>a'.
        ebind (getitem x z2') (\<lambda>b'.
        Inr (pairs @ [(a, b), (a', b')], labels @ [1, 0], k + 2))))))))))))))"

text \<open>
  \<^verbatim>\<open>n = min([len(digit_indices[d]) for d in range(NUM_CLASSES)])\<close>: indexing a list of
  fewer than \<open>NUM_CLASSES\<close> pools raises IndexError, \<^verbatim>\<open>min\<close> of an empty list raises
  ValueError.
\<close>

definition min_pool_length :: "nat list list \<Rightarrow> error + nat" where
  "min_pool_length digit_indices =
     (if length digit_indices < NUM_CLASSES then Inl IndexError
      else if NUM_CLASSES = 0 then Inl ValueError
      else Inr (min_list (map (\<lambda>d. length (digit_indices ! d)) [0..<NUM_CLASSES])))"

text \<open>
  \<^verbatim>\<open>range(n - 1)\<close> is empty for \<open>n = 0\<close>, as \<open>[0..<n - 1]\<close> is with truncating
  subtraction. The function returns the pairs and labels; the model also returns the
  number of draws consumed, the state that the generator is left in.
\<close>

definition create_pairs ::
  "'a list \<Rightarrow> nat list list \<Rightarrow> (nat \<Rightarrow> nat) \<Rightarrow> nat \<Rightarrow> error + ((('a \<times> 'a) list \<times> int list) \<times> nat)"
where
  "create_pairs x digit_indices src k0 =
     ebind (min_pool_length digit_indices) (\<lambda>n.
     ebind (efold (\<lambda>d. efold (\<lambda>i. efold (\<lambda>j. pair_body x digit_indices src d i j)
                                       [i + 1..<n])
                            [0..<n - 1])
                  [0..<NUM_CLASSES] ([], [], k0))
           (\<lambda>s. case s of (pairs, labels, k) \<Rightarrow> Inr ((pairs, labels), k)))"

subsection \<open>get_digit_indices\<close>

text \<open>\<^verbatim>\<open>np.where(labels == i)[0]\<close>: the positions holding \<open>i\<close>, in increasing order.\<close>

definition np_where_eq :: "nat list \<Rightarrow> nat \<Rightarrow> nat list" where
  "np_where_eq labels i = filter (\<lambda>k. labels ! k = i) [0..<length labels]"

text \<open>
  The slice \<^verbatim>\<open>di[:e]\<close> for a Python integer \<open>e\<close>: the first \<open>e\<close> elements when
  \<open>e \<ge> 0\<close>, all but the last \<open>-e\<close> elements when \<open>e < 0\<close>.
\<close>

definition slice_to :: "'a list \<Rightarrow> int \<Rightarrow> 'a list" where
  "slice_to di e = (if 0 \<le> e then take (nat e) di else take (nat (int (length di) + e)) di)"

definition get_digit_indices :: "nat list \<Rightarrow> int \<Rightarrow> nat list list" where
  "get_digit_indices labels examples_per_class =
     (let digit_indices = map (\<lambda>i. np_where_eq labels i) [0..<NUM_CLASSES]
      in map (\<lambda>di. slice_to di examples_per_class) digit_indices)"

subsection \<open>Means of arrays\<close>

text \<open>
  \<^verbatim>\<open>np.mean\<close> and \<^verbatim>\<open>tf.keras.backend.mean\<close> over all elements of an array. The mean
  of an empty array is NaN, which is \<open>None\<close> here.
\<close>

definition np_mean :: "real list \<Rightarrow> real option" where
  "np_mean xs = (if xs = [] then None else Some (sum_list xs / real (length xs)))"

subsection \<open>contrastive_loss\<close>

text \<open>
  The tensors \<^verbatim>\<open>y_true\<close> and \<^verbatim>\<open>y_pred\<close> of one batch are lists of the same length;
  each tensor operation of the source is one elementwise list operation.
\<close>

definition contrastive_loss :: "real list \<Rightarrow> real list \<Rightarrow> real option" where
  "contrastive_loss y_true y_pred =
     (let margin = 1;
          sqaure_pred = map (\<lambda>p. p\<^sup>2) y_pred;
          margin_square = map (\<lambda>v. v\<^sup>2) (map (\<lambda>v. max v 0) (map (\<lambda>p. margin - p) y_pred))
      in np_mean (map2 (+) (map2 (*) y_true sqaure_pred)
                           (map2 (*) (map (\<lambda>t. 1 - t) y_true) margin_square)))"

subsection \<open>compute_accuracy and acc\<close>

text \<open>
  \<^verbatim>\<open>pred == y_true\<close> compares a boolean array with the integer labels elementwise:
  \<^verbatim>\<open>True\<close> equals 1 and \<^verbatim>\<open>False\<close> equals 0. The mean of the resulting boolean array
  counts \<^verbatim>\<open>True\<close> as 1. Both arrays have the same length in every call of the source;
  what numpy does with arrays of different shapes is not modelled.
\<close>

definition compute_accuracy :: "int list \<Rightarrow> real list \<Rightarrow> real option" where
  "compute_accuracy y_true y_pred =
     (let pred = map (\<lambda>p. p < DISTANCE_THRESHOLD) y_pred
      in np_mean (map2 (\<lambda>p y. if (if p then 1 else 0) = y then 1 else 0) pred y_true))"

text \<open>
  The Keras metric: the comparison result is cast to the type of \<^verbatim>\<open>y_true\<close> (a float
  tensor) and compared with it.
\<close>

definition acc :: "real list \<Rightarrow> real list \<Rightarrow> real option" where
  "acc y_true y_pred =
     np_mean (map2 (\<lambda>y c. if y = c then 1 else 0) y_true
                   (map (\<lambda>p. if p < DISTANCE_THRESHOLD then 1 else 0) y_pred))"

subsection \<open>Model construction\<close>

text \<open>
  The networks themselves belong to the framework; a constructed network is a tag with
  its input shape.
\<close>

datatype base_net = BaseNN "nat list" | BaseCNN "nat list" | BaseFCN "nat list"

datatype siamese = SimpleSiamese base_net | DenseSiamese base_net

definition create_simple_siamese_model :: "string \<Rightarrow> nat list \<Rightarrow> error + siamese" where
  "create_simple_siamese_model base_network_model input_shape =
     (if base_network_model = ''nn'' then Inr (SimpleSiamese (BaseNN input_shape))
      else if base_network_model = ''cnn'' then Inr (SimpleSiamese (BaseCNN input_shape))
      else if base_network_model = ''fcn'' then Inr (SimpleSiamese (BaseFCN input_shape))
      else Inl (Exception ''Unknown base network model type.''))"

definition create_dense_siamese_model :: "string \<Rightarrow> nat list \<Rightarrow> error + siamese" where
  "create_dense_siamese_model base_network_model input_shape =
     (if base_network_model = ''nn'' then Inr (DenseSiamese (BaseNN input_shape))
      else if base_network_model = ''cnn'' then Inr (DenseSiamese (BaseCNN input_shape))
      else if base_network_model = ''fcn'' then Inr (DenseSiamese (BaseFCN input_shape))
      else Inl (Exception ''Unknown base network model type.''))"

subsection \<open>main: from the start to the end of training\<close>

record args =
  min_epochs :: int
  max_epochs :: int
  batch_size :: int
  examples_per_class :: int
  model :: string
  base_network :: string
  early_stopping :: bool

text \<open>
  The calls that main makes on the model, in order: \<^verbatim>\<open>model.summary()\<close> and
  \<^verbatim>\<open>model.fit(..., epochs, initial_epoch)\<close>.
\<close>

datatype event = Summary | Fit int int

text \<open>
  Lines 279 to 339 of main. The datasets are parameters (loading them is the
  framework's work) and \<^verbatim>\<open>np.random.seed(SEED)\<close> puts the generator at the start of
  the source \<open>src\<close>. The result is the list of calls made on the model and either the
  exception that ended main or the model after training. The arguments of a call of
  \<^verbatim>\<open>model.fit\<close> are evaluated before the call: with no training pair or no test pair
  the array of pairs is one-dimensional and empty, and \<^verbatim>\<open>tr_pairs[:, 0]\<close> or
  \<^verbatim>\<open>te_pairs[:, 0]\<close> raises IndexError before any fit. The rest of main (plots, final
  accuracy, classification) is not part of this function.
\<close>

definition main_training ::
  "args \<Rightarrow> nat list \<Rightarrow> 'a list \<Rightarrow> nat list \<Rightarrow> 'a list \<Rightarrow> nat list \<Rightarrow> (nat \<Rightarrow> nat)
     \<Rightarrow> event list \<times> (error + siamese)"
where
  "main_training args input_shape x_train y_train x_test y_test src =
     (case create_pairs x_train (get_digit_indices y_train (examples_per_class args)) src 0 of
        Inl e \<Rightarrow> ([], Inl e)
      | Inr (tr, k1) \<Rightarrow>
     (case create_pairs x_test (get_digit_indices y_test (examples_per_class args)) src k1 of
        Inl e \<Rightarrow> ([], Inl e)
      | Inr (te, k2) \<Rightarrow>
     (case (if model args = ''simple_head''
              then create_simple_siamese_model (base_network args) input_shape
            else if model args = ''dense_head''
              then create_dense_siamese_model (base_network args) input_shape
            else Inl (Exception ''Unknown model type.'')) of
        Inl e \<Rightarrow> ([], Inl e)
      | Inr m \<Rightarrow>
          if fst tr = [] \<or> fst te = [] then ([Summary], Inl IndexError)
          else ([Summary]
                @ (if min_epochs args \<noteq> 0 then [Fit (min_epochs args) 0] else [])
                @ [Fit (max_epochs args) (min_epochs args)], Inr m))))"

subsection \<open>main: classification of one test image\<close>

text \<open>
  The comparison chosen at lines 418 to 429: smaller is better for the distance head,
  larger is better otherwise.
\<close>

definition assessment_criteria :: "string \<Rightarrow> real \<Rightarrow> real \<Rightarrow> bool" where
  "assessment_criteria model_name new prev =
     (if model_name = ''simple_head'' then new < prev else new > prev)"

record best =
  min_aggregated_distance :: real
  min_aggregated_distance_label :: int
  median_aggregated_distance :: real
  median_aggregated_distance_label :: int
  mean_aggregated_distance :: real
  mean_aggregated_distance_label :: int

definition initial_best :: "string \<Rightarrow> best" where
  "initial_best model_name =
     (if model_name = ''simple_head''
      then \<lparr>min_aggregated_distance = 999, min_aggregated_distance_label = - 1,
            median_aggregated_distance = 999, median_aggregated_distance_label = - 1,
            mean_aggregated_distance = 999, mean_aggregated_distance_label = - 1\<rparr>
      else \<lparr>min_aggregated_distance = - 999, min_aggregated_distance_label = - 1,
            median_aggregated_distance = - 999, median_aggregated_distance_label = - 1,
            mean_aggregated_distance = - 999, mean_aggregated_distance_label = - 1\<rparr>)"

text \<open>\<^verbatim>\<open>np.min\<close> of an empty array raises ValueError; \<^verbatim>\<open>np.median\<close> of one is NaN.\<close>

definition np_min :: "real list \<Rightarrow> error + real" where
  "np_min xs = (if xs = [] then Inl ValueError else Inr (Min (set xs)))"

definition np_median :: "real list \<Rightarrow> real option" where
  "np_median xs =
     (let s = sort xs; n = length xs
      in if n = 0 then None
         else if odd n then Some (s ! (n div 2))
         else Some ((s ! (n div 2 - 1) + s ! (n div 2)) / 2))"

text \<open>
  Lines 436 to 442: the scores of the test image against the first \<open>n\<close> training
  examples of class \<open>d\<close>. The trained model is the function \<open>predict\<close> from a pair of
  images to its score. With no pair, \<^verbatim>\<open>image_pairs[:, 0]\<close> indexes a one-dimensional
  empty array with two indices and raises IndexError.
\<close>

definition class_predictions ::
  "('a \<Rightarrow> 'a \<Rightarrow> real) \<Rightarrow> 'a list \<Rightarrow> nat list list \<Rightarrow> nat \<Rightarrow> 'a \<Rightarrow> nat \<Rightarrow> error + real list"
where
  "class_predictions predict x_train tr_digit_indices n test_img d =
     ebind (efold (\<lambda>i image_pairs.
                     ebind (getitem tr_digit_indices d) (\<lambda>pool_d.
                     ebind (getitem pool_d i) (\<lambda>z1.
                     ebind (getitem x_train z1) (\<lambda>img.
                     Inr (image_pairs @ [(img, test_img)])))))
                  [0..<n] [])
       (\<lambda>image_pairs.
          if image_pairs = [] then Inl IndexError
          else Inr (map (\<lambda>(a, b). predict a b) image_pairs))"

text \<open>
  Lines 444 to 457: the three running bests, each updated by its own comparison.
  A NaN aggregate compares false and updates nothing.
\<close>

definition update_best :: "string \<Rightarrow> nat \<Rightarrow> real list \<Rightarrow> best \<Rightarrow> error + best" where
  "update_best model_name d predictions s =
     ebind (np_min predictions) (\<lambda>min_distance.
       let s1 = (if assessment_criteria model_name min_distance (min_aggregated_distance s)
                 then s\<lparr>min_aggregated_distance := min_distance,
                        min_aggregated_distance_label := int d\<rparr>
                 else s);
           s2 = (case np_median predictions of
                   None \<Rightarrow> s1
                 | Some median_distance \<Rightarrow>
                     if assessment_criteria model_name median_distance (median_aggregated_distance s1)
                     then s1\<lparr>median_aggregated_distance := median_distance,
                             median_aggregated_distance_label := int d\<rparr>
                     else s1);
           s3 = (case np_mean predictions of
                   None \<Rightarrow> s2
                 | Some mean_distance \<Rightarrow>
                     if assessment_criteria model_name mean_distance (mean_aggregated_distance s2)
                     then s2\<lparr>mean_aggregated_distance := mean_distance,
                             mean_aggregated_distance_label := int d\<rparr>
                     else s2)
       in Inr s3)"

text \<open>
  Lines 414 to 457 for one test image: \<open>n\<close> is the minimum pool length minus one
  (\<^verbatim>\<open>range(n)\<close> is empty for \<open>n \<le> 0\<close>, as \<open>[0..<n]\<close> is with truncating subtraction).
\<close>

definition classify_image ::
  "string \<Rightarrow> ('a \<Rightarrow> 'a \<Rightarrow> real) \<Rightarrow> 'a list \<Rightarrow> nat list list \<Rightarrow> 'a \<Rightarrow> error + best"
where
  "classify_image model_name predict x_train tr_digit_indices test_img =
     ebind (min_pool_length tr_digit_indices) (\<lambda>m.
       let n = m - 1 in
       efold (\<lambda>d s.
                ebind (class_predictions predict x_train tr_digit_indices n test_img d)
                  (\<lambda>predictions. update_best model_name d predictions s))
             [0..<NUM_CLASSES] (initial_best model_name))"

subsection \<open>The running best, as the specification describes it\<close>

text \<open>
  The three definitions of this subsection follow the words of the specification, not
  the source; the theorems on \<open>classify_image\<close> compare the source with them.

  The scores of the pairs (reference example, query image) for the first \<open>n\<close>
  reference examples of class \<open>d\<close>:
\<close>

definition reference_scores ::
  "('a \<Rightarrow> 'a \<Rightarrow> real) \<Rightarrow> 'a list \<Rightarrow> nat list list \<Rightarrow> nat \<Rightarrow> 'a \<Rightarrow> nat \<Rightarrow> real list"
where
  "reference_scores predict x_train tr_digit_indices n test_img d =
     map (\<lambda>i. predict (x_train ! (tr_digit_indices ! d ! i)) test_img) [0..<n]"

text \<open>
  After the classes \<open>0, \<dots>, m - 1\<close> with aggregates \<open>a 0, \<dots>, a (m - 1)\<close>, the running
  best is \<open>(v, l)\<close>: either no aggregate was better than the sentinel and the pair is
  still (sentinel, -1), or \<open>l\<close> is a class \<open>c\<close> whose aggregate \<open>v\<close> is better than the
  sentinel, no class has a better aggregate, and \<open>c\<close> is better than every earlier
  class (of several classes with the best aggregate, the first is kept).
\<close>

definition spec_running_best ::
  "(real \<Rightarrow> real \<Rightarrow> bool) \<Rightarrow> real \<Rightarrow> (nat \<Rightarrow> real) \<Rightarrow> nat \<Rightarrow> real \<Rightarrow> int \<Rightarrow> bool"
where
  "spec_running_best better sentinel a m v l \<longleftrightarrow>
     (l = - 1 \<and> v = sentinel \<and> (\<forall>d<m. \<not> better (a d) sentinel))
   \<or> (\<exists>c<m. l = int c \<and> v = a c \<and> better (a c) sentinel
          \<and> (\<forall>d<m. \<not> better (a d) (a c)) \<and> (\<forall>d<c. better (a c) (a d)))"

text \<open>
  Each policy has its own running best, over its own aggregate of the scores of each
  class: minimum, median and mean.
\<close>

definition spec_running_best_per_policy ::
  "string \<Rightarrow> (nat \<Rightarrow> real list) \<Rightarrow> nat \<Rightarrow> best \<Rightarrow> bool"
where
  "spec_running_best_per_policy model_name scores m s \<longleftrightarrow>
     spec_running_best (assessment_criteria model_name)
       (if model_name = ''simple_head'' then 999 else - 999)
       (\<lambda>d. Min (set (scores d))) m
       (min_aggregated_distance s) (min_aggregated_distance_label s)
   \<and> spec_running_best (assessment_criteria model_name)
       (if model_name = ''simple_head'' then 999 else - 999)
       (\<lambda>d. the (np_median (scores d))) m
       (median_aggregated_distance s) (median_aggregated_distance_label s)
   \<and> spec_running_best (assessment_criteria model_name)
       (if model_name = ''simple_head'' then 999 else - 999)
       (\<lambda>d. the (np_mean (scores d))) m
       (mean_aggregated_distance s) (mean_aggregated_distance_label s)"

subsection \<open>Example inputs\<close>

text \<open>
  Concrete data used by the evaluated examples below: a source of draws that gives
  \<open>rand_inc = 1\<close> everywhere and \<open>rand_idx = 2\<close> (reduced into the range) at the first
  step, pools of two examples per class, and label arrays.
\<close>

definition example_draws :: "nat \<Rightarrow> nat" where
  "example_draws k = (if k = 1 then 2 else 0)"

definition example_pools :: "nat list list" where
  "example_pools = [[0, 1], [2, 3], [4, 5], [6, 7], [8, 9],
                    [10, 11], [12, 13], [14, 15], [16, 17], [18, 19]]"

definition example_labels :: "nat list" where
  "example_labels = [0, 0, 1, 1, 2, 2, 3, 3, 4, 4, 5, 5, 6, 6, 7, 7, 8, 8, 9, 9]"

definition example_labels_unequal :: "nat list" where
  "example_labels_unequal = [0, 0, 0, 1, 1, 2, 2, 3, 3, 4, 4, 5, 5, 6, 6, 7, 7, 8, 8, 9, 9]"

definition example_labels_five :: "nat list" where
  "example_labels_five =
     [0, 1, 2, 3, 4, 5, 6, 7, 8, 9, 0, 1, 2, 3, 4, 5, 6, 7, 8, 9, 0, 1, 2, 3, 4, 5, 6, 7, 8, 9,
      0, 1, 2, 3, 4, 5, 6, 7, 8, 9, 0, 1, 2, 3, 4, 5, 6, 7, 8, 9]"

definition example_args :: args where
  "example_args = \<lparr>min_epochs = 0, max_epochs = 500, batch_size = 16, examples_per_class = 2,
                    model = ''simple_head'', base_network = ''resnet'', early_stopping = True\<rparr>"

text \<open>
  Reference pools of three examples per class (so that two are scored), and trained
  models given by their scores: a table of scores by reference image, a model whose
  distances are all 1000, and a model whose distance is 1000 to the references of class
  0, 1/4 to the references of the other classes and 1500 to every other image.
\<close>

definition example_reference_pools :: "nat list list" where
  "example_reference_pools = [[0, 1, 2], [3, 4, 5], [6, 7, 8], [9, 10, 11], [12, 13, 14],
     [15, 16, 17], [18, 19, 20], [21, 22, 23], [24, 25, 26], [27, 28, 29]]"

definition example_predict :: "nat \<Rightarrow> nat \<Rightarrow> real" where
  "example_predict a b =
     [1 / 10, 1 / 2, 0, 3 / 20, 3 / 20, 0, 1 / 10, 1 / 5, 0, 9 / 10, 9 / 10, 0,
      9 / 10, 9 / 10, 0, 9 / 10, 9 / 10, 0, 9 / 10, 9 / 10, 0, 9 / 10, 9 / 10, 0,
      9 / 10, 9 / 10, 0, 9 / 10, 9 / 10, 0] ! a"

definition far_predict :: "nat \<Rightarrow> nat \<Rightarrow> real" where
  "far_predict a b = 1000"

definition mixed_predict :: "nat \<Rightarrow> nat \<Rightarrow> real" where
  "mixed_predict a b = (if a < 3 then 1000 else if a < 30 then 1 / 4 else 1500)"

section \<open>Properties\<close>

subsection \<open>Sequencing and loops\<close>

lemma ebind_Inr [simp]: "ebind (Inr v) f = f v"
  by (simp add: ebind_def)

lemma ebind_Inl [simp]: "ebind (Inl e) f = Inl e"
  by (simp add: ebind_def)

lemma ebind_eq_Inr: "ebind m f = Inr r \<longleftrightarrow> (\<exists>v. m = Inr v \<and> f v = Inr r)"
  by (cases m) simp_all

lemma ebind_getitem:
  "ebind (getitem xs i) f = (if i < length xs then f (xs ! i) else Inl IndexError)"
  by (simp add: getitem_def)

lemma efold_preserves:
  assumes "efold f bs s = Inr s'" and "I s"
    and "\<And>b t t'. b \<in> set bs \<Longrightarrow> I t \<Longrightarrow> f b t = Inr t' \<Longrightarrow> I t'"
  shows "I s'"
  using assms
proof (induction bs arbitrary: s)
  case Nil
  then show ?case by simp
next
  case (Cons b bs)
  from Cons.prems(1) obtain t where t: "f b s = Inr t" and rest: "efold f bs t = Inr s'"
    by (auto split: sum.splits)
  have "I t" by (rule Cons.prems(3) [OF _ Cons.prems(2) t]) simp
  show ?case
  proof (rule Cons.IH [OF rest \<open>I t\<close>])
    fix c u u'
    assume "c \<in> set bs" "I u" "f c u = Inr u'"
    then show "I u'" using Cons.prems(3) [of c u u'] by simp
  qed
qed

lemma efold_total:
  assumes "I s"
    and "\<And>b t. b \<in> set bs \<Longrightarrow> I t \<Longrightarrow> \<exists>t'. f b t = Inr t' \<and> I t' \<and> m t' = m t + c b"
  shows "\<exists>s'. efold f bs s = Inr s' \<and> I s' \<and> m s' = m s + sum_list (map c bs)"
  using assms
proof (induction bs arbitrary: s)
  case Nil
  then show ?case by simp
next
  case (Cons b bs)
  from Cons.prems obtain t where t: "f b s = Inr t" "I t" "m t = m s + c b"
    by (meson list.set_intros(1))
  have "\<exists>s'. efold f bs t = Inr s' \<and> I s' \<and> m s' = m t + sum_list (map c bs)"
    using Cons.IH [OF t(2)] Cons.prems(2) by simp
  then show ?case using t by (auto simp: add.assoc)
qed

lemma efold_skip: "efold (\<lambda>b s. Inr s) bs s = Inr s"
  by (induction bs) simp_all

lemma pair_body_Inr:
  assumes "pair_body x di src d i j (ps, ls, k) = Inr s'"
  shows "d < length di \<and> i < length (di ! d) \<and> j < length (di ! d)
       \<and> di ! d ! i < length x \<and> di ! d ! j < length x
       \<and> 1 < NUM_CLASSES
       \<and> (d + (1 + src k mod (NUM_CLASSES - 1))) mod NUM_CLASSES < length di
       \<and> src (k + 1) mod length (di ! d)
            < length (di ! ((d + (1 + src k mod (NUM_CLASSES - 1))) mod NUM_CLASSES))
       \<and> di ! ((d + (1 + src k mod (NUM_CLASSES - 1))) mod NUM_CLASSES)
             ! (src (k + 1) mod length (di ! d)) < length x
       \<and> s' = (ps @ [(x ! (di ! d ! i), x ! (di ! d ! j)),
                     (x ! (di ! d ! i),
                      x ! (di ! ((d + (1 + src k mod (NUM_CLASSES - 1))) mod NUM_CLASSES)
                             ! (src (k + 1) mod length (di ! d))))],
               ls @ [1, 0], k + 2)"
  using assms
  by (simp add: pair_body_def ebind_getitem randint_def Let_def split: if_splits)

lemma pair_body_ok:
  assumes "d < length di" "i < length (di ! d)" "j < length (di ! d)"
    and "di ! d ! i < length x" "di ! d ! j < length x" "1 < NUM_CLASSES"
    and "(d + (1 + src k mod (NUM_CLASSES - 1))) mod NUM_CLASSES < length di"
    and "src (k + 1) mod length (di ! d)
            < length (di ! ((d + (1 + src k mod (NUM_CLASSES - 1))) mod NUM_CLASSES))"
    and "di ! ((d + (1 + src k mod (NUM_CLASSES - 1))) mod NUM_CLASSES)
             ! (src (k + 1) mod length (di ! d)) < length x"
  shows "pair_body x di src d i j (ps, ls, k) =
           Inr (ps @ [(x ! (di ! d ! i), x ! (di ! d ! j)),
                     (x ! (di ! d ! i),
                      x ! (di ! ((d + (1 + src k mod (NUM_CLASSES - 1))) mod NUM_CLASSES)
                             ! (src (k + 1) mod length (di ! d))))],
               ls @ [1, 0], k + 2)"
proof -
  have "di ! d \<noteq> []" using assms(2) by auto
  then show ?thesis using assms
    by (simp add: pair_body_def ebind_getitem randint_def Let_def)
qed

subsection \<open>Pair construction: helper lemmas\<close>

lemma min_pool_length_Inr:
  assumes "min_pool_length di = Inr n"
  shows "NUM_CLASSES \<le> length di \<and> 0 < NUM_CLASSES
       \<and> (\<forall>d<NUM_CLASSES. n \<le> length (di ! d))
       \<and> (\<exists>d<NUM_CLASSES. n = length (di ! d))"
proof -
  let ?ls = "map (\<lambda>d. length (di ! d)) [0..<NUM_CLASSES]"
  from assms have len: "NUM_CLASSES \<le> length di" and pos: "0 < NUM_CLASSES"
    and n: "n = min_list ?ls"
    by (auto simp: min_pool_length_def split: if_splits)
  from pos have ne: "?ls \<noteq> []" by simp
  then have m: "n = Min (set ?ls)" using n by (simp add: min_list_Min)
  have "n \<in> set ?ls" unfolding m using ne by (intro Min_in) auto
  then have ex: "\<exists>d<NUM_CLASSES. n = length (di ! d)" by auto
  have "\<forall>d<NUM_CLASSES. n \<le> length (di ! d)"
  proof (intro allI impI)
    fix d assume "d < NUM_CLASSES"
    then have "length (di ! d) \<in> set ?ls" by auto
    then show "n \<le> length (di ! d)" unfolding m by (intro Min_le) auto
  qed
  with len pos ex show ?thesis by blast
qed

lemma min_pool_length_const:
  assumes "NUM_CLASSES \<le> length di" and "\<forall>d<NUM_CLASSES. length (di ! d) = n"
  shows "min_pool_length di = Inr n"
proof -
  let ?ls = "map (\<lambda>d. length (di ! d)) [0..<NUM_CLASSES]"
  have pos: "0 < NUM_CLASSES" by (simp add: NUM_CLASSES_def)
  then have ne: "?ls \<noteq> []" by simp
  have "set ?ls = {n}" using assms(2) pos by (auto simp: image_iff)
  then have "min_list ?ls = n" using ne by (simp add: min_list_Min)
  then show ?thesis using assms(1) pos by (simp add: min_pool_length_def)
qed

lemma create_pairs_invariant:
  assumes run: "create_pairs x di src k0 = Inr ((pairs, labels), k)"
    and init: "I ([], [], k0)"
    and step: "\<And>d i j t t'. d < NUM_CLASSES \<Longrightarrow> I t \<Longrightarrow> pair_body x di src d i j t = Inr t' \<Longrightarrow> I t'"
  shows "I (pairs, labels, k)"
proof -
  from run obtain n s where
    loop: "efold (\<lambda>d. efold (\<lambda>i. efold (\<lambda>j. pair_body x di src d i j) [i + 1..<n]) [0..<n - 1])
             [0..<NUM_CLASSES] ([], [], k0) = Inr s"
    and s: "(case s of (pairs, labels, k) \<Rightarrow> Inr ((pairs, labels), k)) = Inr ((pairs, labels), k)"
    by (auto simp: create_pairs_def ebind_eq_Inr)
  from s have s_eq: "s = (pairs, labels, k)" by (auto split: prod.splits)
  have "I s"
  proof (rule efold_preserves [where I = I, OF loop init])
    fix d t t'
    assume d: "d \<in> set [0..<NUM_CLASSES]" and t: "I t"
      and mid: "efold (\<lambda>i. efold (\<lambda>j. pair_body x di src d i j) [i + 1..<n]) [0..<n - 1] t = Inr t'"
    show "I t'"
    proof (rule efold_preserves [where I = I, OF mid t])
      fix i u u'
      assume u: "I u" and inner: "efold (\<lambda>j. pair_body x di src d i j) [i + 1..<n] u = Inr u'"
      show "I u'"
      proof (rule efold_preserves [where I = I, OF inner u])
        fix j v v'
        assume "I v" "pair_body x di src d i j v = Inr v'"
        then show "I v'" using step [of d v i j v'] d by simp
      qed
    qed
  qed
  then show ?thesis by (simp add: s_eq)
qed

lemma alternating_snoc:
  "concat (replicate m [a, b]) @ [a, b] = concat (replicate (Suc m) [a, b])"
  by (induction m) simp_all

lemma alternating_length: "length (concat (replicate m [a, b])) = 2 * m"
  by (induction m) simp_all

lemma alternating_nth:
  "i < 2 * m \<Longrightarrow> concat (replicate m [a, b]) ! i = (if even i then a else b)"
proof (induction m arbitrary: i)
  case 0
  then show ?case by simp
next
  case (Suc m)
  show ?case
  proof (cases i)
    case 0
    then show ?thesis by simp
  next
    case (Suc i')
    show ?thesis
    proof (cases i')
      case 0
      then show ?thesis using Suc by simp
    next
      case (Suc i'')
      then have "i'' < 2 * m" using Suc.prems \<open>i = Suc i'\<close> by simp
      then show ?thesis using Suc.IH [of i''] Suc \<open>i = Suc i'\<close> by simp
    qed
  qed
qed

lemma alternating_count:
  "count_list (concat (replicate m [1, 0 :: int])) 1 = m"
  "count_list (concat (replicate m [1, 0 :: int])) 0 = m"
  by (induction m) simp_all

lemma partner_differs:
  fixes d r K :: nat
  assumes "d < K" "0 < r" "r < K"
  shows "(d + r) mod K \<noteq> d"
proof (cases "d + r < K")
  case True
  then show ?thesis using assms by simp
next
  case False
  then have "(d + r) mod K = (d + r - K) mod K" by (simp add: le_mod_geq)
  also have "\<dots> = d + r - K" using assms by simp
  finally show ?thesis using assms False by simp
qed

lemma mod_into_range:
  fixes low high v :: nat
  assumes "low < high"
  shows "low + v mod (high - low) < high"
proof -
  from assms have "v mod (high - low) < high - low" by simp
  then show ?thesis by linarith
qed

lemma randint_range:
  assumes "randint src c low high = Inr r"
  shows "low \<le> r \<and> r < high"
  using assms mod_into_range [of low high "src c"]
  by (auto simp: randint_def split: if_splits)

lemma sum_descending: "sum_list (map (\<lambda>i. m - i) [0..<m]) = Suc m choose 2"
proof (induction m)
  case 0
  then show ?case by simp
next
  case (Suc m)
  have eq: "map (\<lambda>i. Suc m - i) [0..<m] = map (\<lambda>i. Suc (m - i)) [0..<m]"
    by (rule map_cong) (auto simp: Suc_diff_le)
  have "sum_list (map (\<lambda>i. Suc m - i) [0..<Suc m])
      = sum_list (map (\<lambda>i. Suc m - i) [0..<m]) + 1"
    by simp
  also have "\<dots> = sum_list (map (\<lambda>i. Suc (m - i)) [0..<m]) + 1"
    by (simp only: eq)
  also have "\<dots> = sum_list (map (\<lambda>i. m - i) [0..<m]) + m + 1"
    by (simp add: sum_list_Suc)
  also have "\<dots> = (Suc m choose 2) + Suc m" using Suc.IH by simp
  also have "\<dots> = Suc (Suc m) choose 2"
    by (simp add: numeral_2_eq_2)
  finally show ?case .
qed

lemma sum_inner_counts:
  "sum_list (map (\<lambda>i. sum_list (map (\<lambda>j. 2) [i + 1..<n])) [0..<n - 1]) = 2 * (n choose 2)"
proof (cases n)
  case 0
  then show ?thesis by simp
next
  case (Suc m)
  have eq: "map (\<lambda>i. sum_list (map (\<lambda>j. 2::nat) [i + 1..<n])) [0..<m]
          = map (\<lambda>i. 2 * (m - i)) [0..<m]"
    by (rule map_cong) (auto simp: sum_list_triv Suc)
  have range: "[0..<n - 1] = [0..<m]" using Suc by simp
  have "sum_list (map (\<lambda>i. sum_list (map (\<lambda>j. 2::nat) [i + 1..<n])) [0..<n - 1])
      = sum_list (map (\<lambda>i. 2 * (m - i)) [0..<m])"
    by (simp only: range eq)
  also have "\<dots> = 2 * sum_list (map (\<lambda>i. m - i) [0..<m])"
    by (simp only: sum_list_const_mult)
  also have "\<dots> = 2 * (n choose 2)"
    by (simp only: sum_descending Suc)
  finally show ?thesis .
qed

lemma efold_Nil_fun: "efold f [] = Inr"
  by (rule ext) simp

lemma create_pairs_total:
  assumes len: "NUM_CLASSES \<le> length di"
    and same: "\<forall>d<NUM_CLASSES. length (di ! d) = n"
    and inx: "\<forall>d<NUM_CLASSES. \<forall>z\<in>set (di ! d). z < length x"
  shows "\<exists>pairs labels k. create_pairs x di src k0 = Inr ((pairs, labels), k)
           \<and> length pairs = 2 * NUM_CLASSES * (n choose 2)"
proof -
  define m :: "'a pair_state \<Rightarrow> nat" where "m = (\<lambda>(ps, ls, c). length ps)"
  define T :: "'a pair_state \<Rightarrow> bool" where "T = (\<lambda>s. True)"
  have K: "1 < NUM_CLASSES" by (simp add: NUM_CLASSES_def)
  have body: "\<exists>t'. pair_body x di src d i j t = Inr t' \<and> T t' \<and> m t' = m t + 2"
    if d: "d < NUM_CLASSES" and i: "i < n" and j: "j < n" for d i j t
  proof -
    obtain ps ls c where t: "t = (ps, ls, c)" by (cases t)
    define dn where "dn = (d + (1 + src c mod (NUM_CLASSES - 1))) mod NUM_CLASSES"
    define r where "r = src (c + 1) mod length (di ! d)"
    have dn: "dn < NUM_CLASSES" unfolding dn_def using K by simp
    have ld: "length (di ! d) = n" and ldn: "length (di ! dn) = n" using same d dn by simp_all
    have r: "r < n" unfolding r_def ld using i by simp
    have 1: "d < length di" using d len by simp
    have 2: "i < length (di ! d)" "j < length (di ! d)" using i j ld by simp_all
    have 3: "di ! d ! i < length x" "di ! d ! j < length x"
      using inx d 2 by (simp_all add: nth_mem)
    have 4: "dn < length di" using dn len by simp
    have 5: "r < length (di ! dn)" using r ldn by simp
    have 6: "di ! dn ! r < length x" using inx dn 5 by (simp add: nth_mem)
    show ?thesis
      unfolding t
      by (subst pair_body_ok [OF 1 2 3 K 4 [unfolded dn_def] 5 [unfolded dn_def r_def] 6 [unfolded dn_def r_def]])
         (simp add: m_def T_def)
  qed
  have inner: "\<exists>t'. efold (\<lambda>j. pair_body x di src d i j) [i + 1..<n] t = Inr t' \<and> T t'
                 \<and> m t' = m t + sum_list (map (\<lambda>j. 2) [i + 1..<n])"
    if d: "d < NUM_CLASSES" and i: "i < n - 1" for d i t
  proof (rule efold_total [where I = T and m = m])
    show "T t" by (simp add: T_def)
  next
    fix j u
    assume "j \<in> set [i + 1..<n]"
    then have "j < n" "i < n" by simp_all
    then show "\<exists>t'. pair_body x di src d i j u = Inr t' \<and> T t' \<and> m t' = m u + 2"
      using body [OF d] by blast
  qed
  have middle: "\<exists>t'. efold (\<lambda>i. efold (\<lambda>j. pair_body x di src d i j) [i + 1..<n]) [0..<n - 1] t = Inr t'
                 \<and> T t' \<and> m t' = m t + sum_list (map (\<lambda>i. sum_list (map (\<lambda>j. 2) [i + 1..<n])) [0..<n - 1])"
    if d: "d < NUM_CLASSES" for d t
  proof (rule efold_total [where I = T and m = m])
    show "T t" by (simp add: T_def)
  next
    fix i u
    assume "i \<in> set [0..<n - 1]"
    then have "i < n - 1" by simp
    then show "\<exists>t'. efold (\<lambda>j. pair_body x di src d i j) [i + 1..<n] u = Inr t' \<and> T t'
                 \<and> m t' = m u + sum_list (map (\<lambda>j. 2) [i + 1..<n])"
      by (rule inner [OF d])
  qed
  have "\<exists>s'. efold (\<lambda>d. efold (\<lambda>i. efold (\<lambda>j. pair_body x di src d i j) [i + 1..<n]) [0..<n - 1])
               [0..<NUM_CLASSES] ([], [], k0) = Inr s' \<and> T s'
           \<and> m s' = m ([], [], k0) + sum_list (map (\<lambda>d. 2 * (n choose 2)) [0..<NUM_CLASSES])"
  proof (rule efold_total [where I = T and m = m])
    show "T ([], [], k0)" by (simp add: T_def)
  next
    fix d u
    assume "d \<in> set [0..<NUM_CLASSES]"
    then have "d < NUM_CLASSES" by simp
    from middle [OF this, of u]
    show "\<exists>t'. efold (\<lambda>i. efold (\<lambda>j. pair_body x di src d i j) [i + 1..<n]) [0..<n - 1] u = Inr t'
                 \<and> T t' \<and> m t' = m u + 2 * (n choose 2)"
      by (simp only: sum_inner_counts)
  qed
  then obtain ps ls c where
    loop: "efold (\<lambda>d. efold (\<lambda>i. efold (\<lambda>j. pair_body x di src d i j) [i + 1..<n]) [0..<n - 1])
               [0..<NUM_CLASSES] ([], [], k0) = Inr (ps, ls, c)"
    and cnt: "length ps = 2 * NUM_CLASSES * (n choose 2)"
    by (auto simp: m_def sum_list_triv)
  have "create_pairs x di src k0 = Inr ((ps, ls), c)"
    unfolding create_pairs_def min_pool_length_const [OF len same] ebind_Inr loop by simp
  with cnt show ?thesis by blast
qed

lemma create_pairs_degenerate:
  assumes "min_pool_length di = Inr n" and "n < 2"
  shows "create_pairs x di src k0 = Inr (([], []), k0)"
proof -
  have "[0..<n - 1] = []" using assms(2) by simp
  then show ?thesis
    by (simp add: create_pairs_def assms(1) efold_Nil_fun efold_skip)
qed

lemma efold_counts:
  assumes "efold f bs s = Inr s'"
    and "\<And>b t t'. b \<in> set bs \<Longrightarrow> f b t = Inr t' \<Longrightarrow> m t' = m t + c b"
  shows "m s' = m s + sum_list (map c bs)"
  using assms
proof (induction bs arbitrary: s)
  case Nil
  then show ?case by simp
next
  case (Cons b bs)
  from Cons.prems(1) obtain t where t: "f b s = Inr t" and rest: "efold f bs t = Inr s'"
    by (auto split: sum.splits)
  have "m t = m s + c b" by (rule Cons.prems(2) [OF _ t]) simp
  moreover have "m s' = m t + sum_list (map c bs)"
  proof (rule Cons.IH [OF rest])
    fix a u u'
    assume "a \<in> set bs" "f a u = Inr u'"
    then show "m u' = m u + c a" using Cons.prems(2) [of a u u'] by simp
  qed
  ultimately show ?case by (simp add: add.assoc)
qed

lemma create_pairs_count:
  assumes run: "create_pairs x di src k0 = Inr ((pairs, labels), k)"
  shows "\<exists>n. min_pool_length di = Inr n \<and> length pairs = 2 * NUM_CLASSES * (n choose 2)"
proof -
  define m :: "'a pair_state \<Rightarrow> nat" where "m = (\<lambda>(ps, ls, c). length ps)"
  from run obtain n s where n: "min_pool_length di = Inr n" and
    loop: "efold (\<lambda>d. efold (\<lambda>i. efold (\<lambda>j. pair_body x di src d i j) [i + 1..<n]) [0..<n - 1])
             [0..<NUM_CLASSES] ([], [], k0) = Inr s"
    and s: "(case s of (pairs, labels, k) \<Rightarrow> Inr ((pairs, labels), k)) = Inr ((pairs, labels), k)"
    by (auto simp: create_pairs_def ebind_eq_Inr)
  from s have s_eq: "s = (pairs, labels, k)" by (auto split: prod.splits)
  have body: "m t' = m t + 2" if "pair_body x di src d i j t = Inr t'" for d i j t t'
  proof -
    obtain ps ls c where t: "t = (ps, ls, c)" by (cases t)
    from that [unfolded t] pair_body_Inr [of x di src d i j ps ls c t']
    obtain p q where "t' = (ps @ [p, q], ls @ [1, 0], c + 2)" by blast
    then show ?thesis by (simp add: m_def t)
  qed
  have inner: "m t' = m t + sum_list (map (\<lambda>j. 2) [i + 1..<n])"
    if "efold (\<lambda>j. pair_body x di src d i j) [i + 1..<n] t = Inr t'" for d i t t'
    by (rule efold_counts [where m = m, OF that]) (rule body)
  have middle: "m t' = m t + 2 * (n choose 2)"
    if "efold (\<lambda>i. efold (\<lambda>j. pair_body x di src d i j) [i + 1..<n]) [0..<n - 1] t = Inr t'"
    for d t t'
  proof -
    have "m t' = m t + sum_list (map (\<lambda>i. sum_list (map (\<lambda>j. 2) [i + 1..<n])) [0..<n - 1])"
      by (rule efold_counts [where m = m, OF that]) (rule inner)
    then show ?thesis by (simp only: sum_inner_counts)
  qed
  have "m s = m ([], [], k0) + sum_list (map (\<lambda>d. 2 * (n choose 2)) [0..<NUM_CLASSES])"
    by (rule efold_counts [where m = m, OF loop]) (rule middle)
  then have "length pairs = 2 * NUM_CLASSES * (n choose 2)"
    by (simp add: m_def s_eq sum_list_triv)
  with n show ?thesis by blast
qed

lemma np_where_eq_length: "length (np_where_eq labels c) = count_list labels c"
proof (induction labels rule: rev_induct)
  case Nil
  then show ?case by (simp add: np_where_eq_def)
next
  case (snoc a labels)
  have "filter (\<lambda>k. (labels @ [a]) ! k = c) [0..<length labels]
      = filter (\<lambda>k. labels ! k = c) [0..<length labels]"
    by (rule filter_cong) (auto simp: nth_append)
  then show ?case using snoc.IH by (simp add: np_where_eq_def)
qed

lemma np_where_eq_set:
  "z \<in> set (np_where_eq labels c) \<Longrightarrow> z < length labels \<and> labels ! z = c"
  by (simp add: np_where_eq_def)

lemma slice_to_length: "0 \<le> e \<Longrightarrow> length (slice_to xs e) = min (nat e) (length xs)"
  by (simp add: slice_to_def min.commute)

lemma slice_to_set: "set (slice_to xs e) \<subseteq> set xs"
  by (simp add: slice_to_def set_take_subset)

lemma get_digit_indices_length: "length (get_digit_indices labels e) = NUM_CLASSES"
  by (simp add: get_digit_indices_def)

lemma get_digit_indices_nth:
  "c < NUM_CLASSES \<Longrightarrow> get_digit_indices labels e ! c = slice_to (np_where_eq labels c) e"
  by (simp add: get_digit_indices_def)

lemma example_run:
  "create_pairs example_labels example_pools example_draws 0 =
     Inr (([(0, 0), (0, 1), (1, 1), (1, 2), (2, 2), (2, 3), (3, 3), (3, 4), (4, 4), (4, 5),
            (5, 5), (5, 6), (6, 6), (6, 7), (7, 7), (7, 8), (8, 8), (8, 9), (9, 9), (9, 0)],
           [1, 0, 1, 0, 1, 0, 1, 0, 1, 0, 1, 0, 1, 0, 1, 0, 1, 0, 1, 0]), 20)"
  by code_simp

text \<open>
  What holds of \<open>get_digit_indices\<close> and of \<open>create_pairs\<close> on its pools: the size of
  each pool; the number of pairs when all pools have the same length; the empty result
  when some pool has fewer than two indices; five examples per class give 200 pairs.
\<close>

lemma get_digit_indices_pool_sizes:
  assumes "0 \<le> per_class"
  shows "length (get_digit_indices labels per_class) = NUM_CLASSES
       \<and> (\<forall>c<NUM_CLASSES. length (get_digit_indices labels per_class ! c)
              = min (nat per_class) (count_list labels c))"
  using assms
  by (simp add: get_digit_indices_length get_digit_indices_nth slice_to_length np_where_eq_length)

lemma get_digit_indices_in_range:
  assumes "d < NUM_CLASSES" and "z \<in> set (get_digit_indices labels per_class ! d)"
  shows "z < length labels"
proof -
  have "z \<in> set (np_where_eq labels d)"
    using assms slice_to_set [of "np_where_eq labels d" per_class]
    by (auto simp: get_digit_indices_nth)
  then show ?thesis using np_where_eq_set [of z labels d] by simp
qed

lemma create_pairs_on_equal_pools:
  assumes lx: "length x = length labels"
    and same: "\<forall>c<NUM_CLASSES. length (get_digit_indices labels per_class ! c) = n"
  shows "\<exists>pairs ls k.
           create_pairs x (get_digit_indices labels per_class) src k0 = Inr ((pairs, ls), k)
           \<and> length pairs = 2 * NUM_CLASSES * (n choose 2)"
proof -
  let ?g = "get_digit_indices labels per_class"
  have "NUM_CLASSES \<le> length ?g" by (simp add: get_digit_indices_length)
  moreover have "\<forall>d<NUM_CLASSES. \<forall>z\<in>set (?g ! d). z < length x"
    using get_digit_indices_in_range [of _ _ labels per_class] lx by auto
  ultimately show ?thesis using same by (intro create_pairs_total) simp_all
qed

lemma create_pairs_on_short_pools:
  assumes "\<exists>c<NUM_CLASSES. length (get_digit_indices labels per_class ! c) < 2"
  shows "create_pairs x (get_digit_indices labels per_class) src k0 = Inr (([], []), k0)"
proof -
  let ?g = "get_digit_indices labels per_class"
  from assms obtain c where c: "c < NUM_CLASSES" "length (?g ! c) < 2" by blast
  have "length ?g \<ge> NUM_CLASSES" "0 < NUM_CLASSES"
    by (simp_all add: get_digit_indices_length NUM_CLASSES_def)
  then obtain m where m: "min_pool_length ?g = Inr m"
    by (auto simp: min_pool_length_def)
  from min_pool_length_Inr [OF m] c have "m < 2" by fastforce
  with m show ?thesis by (rule create_pairs_degenerate)
qed

lemma five_per_class_gives_200_pairs:
  "\<exists>pairs ls k.
     create_pairs [0..<50] (get_digit_indices example_labels_five 5) example_draws 0
       = Inr ((pairs, ls), k)
     \<and> length pairs = 200"
proof -
  have lx: "length [0..<50] = length example_labels_five" by code_simp
  have "\<forall>c\<in>set [0..<NUM_CLASSES]. length (get_digit_indices example_labels_five 5 ! c) = 5"
    by code_simp
  then have same: "\<forall>c<NUM_CLASSES. length (get_digit_indices example_labels_five 5 ! c) = 5"
    by simp
  have count: "2 * NUM_CLASSES * (5 choose 2) = 200" by code_simp
  from create_pairs_on_equal_pools [OF lx same, of example_draws 0]
  show ?thesis by (simp only: count)
qed

subsection \<open>Pair construction: the claims\<close>

text \<open>
  C1. The claim says that the index \<open>r\<close> of the partner example is a valid index into
  \<open>pool[dn]\<close>. The code draws it below \<open>len(pool[d])\<close>, the length of the source
  class's pool, and then reads \<open>pool[dn][r]\<close>. With a source pool of three examples,
  partner pools of two and the draws \<open>rand_inc = 1\<close>, \<open>rand_idx = 2\<close>, the read is out
  of bounds and the call raises IndexError.
\<close>

theorem create_pairs_partner_index_out_of_bounds:
  "create_pairs [0..<21]
     [[0, 1, 2], [3, 4], [5, 6], [7, 8], [9, 10], [11, 12], [13, 14], [15, 16], [17, 18], [19, 20]]
     example_draws 0 = Inl IndexError"
  by code_simp

text \<open>
  C2. The pools that \<open>get_digit_indices\<close> returns are as the claim says, but
  \<open>create_pairs\<close> does not always produce the \<open>2 * K * C(n, 2)\<close> pairs on them. With three
  examples of class 0 and two of every other class, and \<open>examples_per_class = 5\<close>, the pools
  hold three and two indices, so \<open>n = 2\<close> and the claim has \<open>2 * 10 * C(2, 2) = 20\<close> pairs;
  with the draws \<open>rand_inc = 1\<close>, \<open>rand_idx = 2\<close> at the first step the call raises
  IndexError. This is the defect of C1: the index into the partner's pool is drawn below
  the length of the source class's pool.
\<close>

theorem get_digit_indices_create_pairs_raises:
  "get_digit_indices example_labels_unequal 5 =
     [[0, 1, 2], [3, 4], [5, 6], [7, 8], [9, 10], [11, 12], [13, 14], [15, 16], [17, 18], [19, 20]]
   \<and> min_pool_length (get_digit_indices example_labels_unequal 5) = Inr 2
   \<and> create_pairs [0..<21] (get_digit_indices example_labels_unequal 5) example_draws 0
       = Inl IndexError"
  by code_simp

text \<open>
  C3. The labels returned by \<open>create_pairs\<close> are \<open>[1, 0]\<close> repeated once per generated
  step: they alternate strictly, starting with 1, there is one label per pair, and
  the labels 1 and 0 occur equally often.
\<close>

theorem create_pairs_labels_alternate:
  assumes "create_pairs x digit_indices src k0 = Inr ((pairs, labels), k)"
  shows "labels = concat (replicate (length pairs div 2) [1, 0])
       \<and> length labels = length pairs
       \<and> (\<forall>m<length labels. labels ! m = (if even m then 1 else 0))
       \<and> count_list labels 1 = count_list labels 0"
proof -
  define I :: "'a pair_state \<Rightarrow> bool" where
    "I = (\<lambda>(ps, ls, k). even (length ps) \<and> ls = concat (replicate (length ps div 2) [1, 0]))"
  have "I (pairs, labels, k)"
  proof (rule create_pairs_invariant [where I = I, OF assms])
    show "I ([], [], k0)" by (simp add: I_def)
  next
    fix d i j t t'
    assume t: "I t" and body: "pair_body x digit_indices src d i j t = Inr t'"
    obtain ps ls c where t_eq: "t = (ps, ls, c)" by (cases t)
    from body [unfolded t_eq] pair_body_Inr [of x digit_indices src d i j ps ls c t']
    obtain p q where t': "t' = (ps @ [p, q], ls @ [1, 0], c + 2)" by blast
    from t have ev: "even (length ps)" and ls: "ls = concat (replicate (length ps div 2) [1, 0])"
      by (simp_all add: I_def t_eq)
    have "(length ps + 2) div 2 = Suc (length ps div 2)" by simp
    then show "I t'"
      using ev ls alternating_snoc [of "length ps div 2" "1::int" 0]
      by (simp add: I_def t')
  qed
  then have ev: "even (length pairs)"
    and ls: "labels = concat (replicate (length pairs div 2) [1, 0])"
    by (simp_all add: I_def)
  have len: "length labels = length pairs"
    using ev by (subst ls) (simp add: alternating_length)
  have nth: "\<forall>m<length labels. labels ! m = (if even m then 1 else 0)"
  proof (intro allI impI)
    fix m assume "m < length labels"
    then have "m < 2 * (length pairs div 2)" using len ev by simp
    then show "labels ! m = (if even m then 1 else 0)"
      by (subst ls) (rule alternating_nth)
  qed
  have "count_list labels 1 = count_list labels 0"
    by (subst (1 2) ls) (simp add: alternating_count)
  with ls len nth show ?thesis by blast
qed

theorem create_pairs_labels_alternate_witness:
  "create_pairs example_labels example_pools example_draws 0 =
     Inr (([(0, 0), (0, 1), (1, 1), (1, 2), (2, 2), (2, 3), (3, 3), (3, 4), (4, 4), (4, 5),
            (5, 5), (5, 6), (6, 6), (6, 7), (7, 7), (7, 8), (8, 8), (8, 9), (9, 9), (9, 0)],
           [1, 0, 1, 0, 1, 0, 1, 0, 1, 0, 1, 0, 1, 0, 1, 0, 1, 0, 1, 0]), 20)
   \<and> [1, 0, 1, 0, 1, 0, 1, 0, 1, 0, 1, 0, 1, 0, 1, 0, 1, 0, 1, 0 :: int]
       = concat (replicate (length [(0::nat, 0::nat), (0, 1), (1, 1), (1, 2), (2, 2), (2, 3), (3, 3),
            (3, 4), (4, 4), (4, 5), (5, 5), (5, 6), (6, 6), (6, 7), (7, 7), (7, 8), (8, 8), (8, 9),
            (9, 9), (9, 0)] div 2) [1, 0])
   \<and> count_list [1, 0, 1, 0, 1, 0, 1, 0, 1, 0, 1, 0, 1, 0, 1, 0, 1, 0, 1, 0 :: int] 1
       = count_list [1, 0, 1, 0, 1, 0, 1, 0, 1, 0, 1, 0, 1, 0, 1, 0, 1, 0, 1, 0 :: int] 0"
  using example_run create_pairs_labels_alternate [OF example_run] by blast

text \<open>
  C4. When every index of \<open>pool[c]\<close> is an example of class \<open>c\<close> (\<open>cls\<close> gives the
  class of an example), every pair labelled 1 has two elements of the same class and
  every pair labelled 0 has two elements of different classes; each pair is one or the
  other. The partner class \<open>(d + r) mod K\<close> with \<open>r\<close> drawn from \<open>[1, K - 1]\<close> is never
  \<open>d\<close>.
\<close>

theorem create_pairs_classes:
  assumes run: "create_pairs x digit_indices src k0 = Inr ((pairs, labels), k)"
    and pools: "\<forall>c<NUM_CLASSES. \<forall>z\<in>set (digit_indices ! c). z < length x \<longrightarrow> cls (x ! z) = c"
  shows "length labels = length pairs
       \<and> (\<forall>m<length pairs.
            (labels ! m = 1 \<and> cls (fst (pairs ! m)) = cls (snd (pairs ! m)))
          \<or> (labels ! m = 0 \<and> cls (fst (pairs ! m)) \<noteq> cls (snd (pairs ! m))))
       \<and> (\<forall>d c r. d < NUM_CLASSES \<longrightarrow> randint src c 1 NUM_CLASSES = Inr r
            \<longrightarrow> (d + r) mod NUM_CLASSES \<noteq> d)"
proof -
  define R :: "'a \<times> 'a \<Rightarrow> int \<Rightarrow> bool" where
    "R = (\<lambda>p l. (l = 1 \<and> cls (fst p) = cls (snd p)) \<or> (l = 0 \<and> cls (fst p) \<noteq> cls (snd p)))"
  define I :: "'a pair_state \<Rightarrow> bool" where "I = (\<lambda>(ps, ls, c). list_all2 R ps ls)"
  have "I (pairs, labels, k)"
  proof (rule create_pairs_invariant [where I = I, OF run])
    show "I ([], [], k0)" by (simp add: I_def)
  next
    fix d i j t t'
    assume d: "d < NUM_CLASSES" and t: "I t" and body: "pair_body x digit_indices src d i j t = Inr t'"
    obtain ps ls c where t_eq: "t = (ps, ls, c)" by (cases t)
    define dn where "dn = (d + (1 + src c mod (NUM_CLASSES - 1))) mod NUM_CLASSES"
    define r where "r = src (c + 1) mod length (digit_indices ! d)"
    note facts = pair_body_Inr [OF body [unfolded t_eq], folded dn_def r_def]
    have K: "1 < NUM_CLASSES" using facts by simp
    have dn: "dn < NUM_CLASSES" unfolding dn_def using K by simp
    have rpos: "0 < 1 + src c mod (NUM_CLASSES - 1)" by simp
    have rlt: "1 + src c mod (NUM_CLASSES - 1) < NUM_CLASSES"
      using K by (rule mod_into_range)
    have neq: "dn \<noteq> d" unfolding dn_def by (rule partner_differs [OF d rpos rlt])
    have zi: "digit_indices ! d ! i \<in> set (digit_indices ! d)"
      and zj: "digit_indices ! d ! j \<in> set (digit_indices ! d)"
      and zr: "digit_indices ! dn ! r \<in> set (digit_indices ! dn)"
      using facts by simp_all
    have ci: "cls (x ! (digit_indices ! d ! i)) = d"
      and cj: "cls (x ! (digit_indices ! d ! j)) = d"
      using pools d zi zj facts by blast+
    have cr: "cls (x ! (digit_indices ! dn ! r)) = dn"
      using pools dn zr facts by blast
    have t': "t' = (ps @ [(x ! (digit_indices ! d ! i), x ! (digit_indices ! d ! j)),
                          (x ! (digit_indices ! d ! i), x ! (digit_indices ! dn ! r))],
                    ls @ [1, 0], c + 2)"
      using facts by simp
    have "list_all2 R ps ls" using t by (simp add: I_def t_eq)
    moreover have "list_all2 R [(x ! (digit_indices ! d ! i), x ! (digit_indices ! d ! j)),
                          (x ! (digit_indices ! d ! i), x ! (digit_indices ! dn ! r))] [1, 0]"
      using ci cj cr neq by (simp add: R_def)
    ultimately show "I t'" unfolding t' I_def by (simp add: list_all2_appendI)
  qed
  then have all2: "list_all2 R pairs labels" by (simp add: I_def)
  then have len: "length labels = length pairs" by (simp add: list_all2_lengthD)
  have cls: "\<forall>m<length pairs.
            (labels ! m = 1 \<and> cls (fst (pairs ! m)) = cls (snd (pairs ! m)))
          \<or> (labels ! m = 0 \<and> cls (fst (pairs ! m)) \<noteq> cls (snd (pairs ! m)))"
    using all2 by (auto simp: list_all2_conv_all_nth R_def)
  have "\<forall>d c r. d < NUM_CLASSES \<longrightarrow> randint src c 1 NUM_CLASSES = Inr r
            \<longrightarrow> (d + r) mod NUM_CLASSES \<noteq> d"
  proof (intro allI impI)
    fix d c r
    assume d: "d < NUM_CLASSES" and r: "randint src c 1 NUM_CLASSES = Inr r"
    from randint_range [OF r] have "0 < r" and "r < NUM_CLASSES" by simp_all
    then show "(d + r) mod NUM_CLASSES \<noteq> d" by (rule partner_differs [OF d])
  qed
  with len cls show ?thesis by blast
qed

theorem create_pairs_classes_witness:
  "create_pairs example_labels example_pools example_draws 0 =
     Inr (([(0, 0), (0, 1), (1, 1), (1, 2), (2, 2), (2, 3), (3, 3), (3, 4), (4, 4), (4, 5),
            (5, 5), (5, 6), (6, 6), (6, 7), (7, 7), (7, 8), (8, 8), (8, 9), (9, 9), (9, 0)],
           [1, 0, 1, 0, 1, 0, 1, 0, 1, 0, 1, 0, 1, 0, 1, 0, 1, 0, 1, 0]), 20)
   \<and> length [1, 0, 1, 0, 1, 0, 1, 0, 1, 0, 1, 0, 1, 0, 1, 0, 1, 0, 1, 0 :: int]
       = length [(0::nat, 0::nat), (0, 1), (1, 1), (1, 2), (2, 2), (2, 3), (3, 3),
            (3, 4), (4, 4), (4, 5), (5, 5), (5, 6), (6, 6), (6, 7), (7, 7), (7, 8), (8, 8), (8, 9),
            (9, 9), (9, 0)]"
proof -
  have "\<forall>c\<in>set [0..<NUM_CLASSES]. \<forall>z\<in>set (example_pools ! c).
          z < length example_labels \<longrightarrow> id (example_labels ! z) = c"
    by code_simp
  then have pools: "\<forall>c<NUM_CLASSES. \<forall>z\<in>set (example_pools ! c).
          z < length example_labels \<longrightarrow> id (example_labels ! z) = c"
    by simp
  show ?thesis
    using example_run create_pairs_classes [OF example_run pools] by blast
qed

subsection \<open>Loss and accuracy: helper lemmas\<close>

lemma sum_list_map2_nth:
  fixes f :: "'a \<Rightarrow> 'b \<Rightarrow> real"
  assumes "length xs = length ys"
  shows "sum_list (map2 f xs ys) = (\<Sum>i<length xs. f (xs ! i) (ys ! i))"
proof -
  have "sum_list (map2 f xs ys) = (\<Sum>i = 0..<length (map2 f xs ys). map2 f xs ys ! i)"
    by (rule sum_list_sum_nth)
  also have "\<dots> = (\<Sum>i = 0..<length xs. f (xs ! i) (ys ! i))"
    using assms by (intro sum.cong) simp_all
  finally show ?thesis by (simp add: atLeast0LessThan)
qed

lemma np_mean_map2:
  assumes "length xs = length ys" and "xs \<noteq> []"
  shows "np_mean (map2 f xs ys) = Some ((\<Sum>i<length xs. f (xs ! i) (ys ! i)) / real (length xs))"
proof -
  have "map2 f xs ys \<noteq> []" using assms by (cases xs; cases ys) simp_all
  then show ?thesis
    using assms(1) by (simp add: np_mean_def sum_list_map2_nth)
qed

lemma compute_accuracy_sum:
  assumes len: "length y_true = length y_pred" and ne: "y_pred \<noteq> []"
  shows "compute_accuracy y_true y_pred =
           Some ((\<Sum>i<length y_pred.
                    if (if y_pred ! i < DISTANCE_THRESHOLD then 1 else 0) = y_true ! i then 1 else 0)
                 / real (length y_pred))"
proof -
  let ?pred = "map (\<lambda>p. p < DISTANCE_THRESHOLD) y_pred"
  have l: "length ?pred = length y_true" using len by simp
  have n: "?pred \<noteq> []" using ne by simp
  have "compute_accuracy y_true y_pred =
          Some ((\<Sum>i<length ?pred.
                   if (if ?pred ! i then 1 else 0) = y_true ! i then 1 else 0) / real (length ?pred))"
    unfolding compute_accuracy_def Let_def by (rule np_mean_map2 [OF l n])
  also have "(\<Sum>i<length ?pred. if (if ?pred ! i then 1 else 0) = y_true ! i then 1 else (0::real))
           = (\<Sum>i<length y_pred.
                    if (if y_pred ! i < DISTANCE_THRESHOLD then 1 else 0) = y_true ! i then 1 else 0)"
    by (intro sum.cong) simp_all
  finally show ?thesis by simp
qed

lemma acc_sum:
  assumes len: "length y_true = length y_pred" and ne: "y_pred \<noteq> []"
  shows "acc y_true y_pred =
           Some ((\<Sum>i<length y_pred.
                    if y_true ! i = (if y_pred ! i < DISTANCE_THRESHOLD then 1 else 0) then 1 else 0)
                 / real (length y_pred))"
proof -
  let ?c = "map (\<lambda>p. if p < DISTANCE_THRESHOLD then 1 else (0::real)) y_pred"
  have l: "length y_true = length ?c" using len by simp
  have n: "y_true \<noteq> []" using ne len by auto
  have "acc y_true y_pred =
          Some ((\<Sum>i<length y_true. if y_true ! i = ?c ! i then 1 else 0) / real (length y_true))"
    unfolding acc_def by (rule np_mean_map2 [OF l n])
  also have "(\<Sum>i<length y_true. if y_true ! i = ?c ! i then 1 else (0::real))
           = (\<Sum>i<length y_pred.
                    if y_true ! i = (if y_pred ! i < DISTANCE_THRESHOLD then 1 else 0) then 1 else 0)"
    using len by (intro sum.cong) simp_all
  finally show ?thesis using len by simp
qed

lemma indicator_sum_card:
  fixes n :: nat
  shows "(\<Sum>i<n. if P i then 1 else (0::real)) = real (card {i. i < n \<and> P i})"
proof -
  have "(\<Sum>i\<in>{i \<in> {..<n}. P i}. 1) = (\<Sum>i<n. if P i then 1 else (0::real))"
    by (rule sum.inter_filter) simp
  then have "(\<Sum>i<n. if P i then 1 else (0::real)) = (\<Sum>i\<in>{i \<in> {..<n}. P i}. 1)"
    by simp
  also have "\<dots> = real (card {i \<in> {..<n}. P i})" by simp
  also have "{i \<in> {..<n}. P i} = {i. i < n \<and> P i}" by auto
  finally show ?thesis .
qed

lemma boundary_sum_step:
  fixes g0 g1 :: "nat \<Rightarrow> real"
  assumes i: "i < n" and at0: "g0 i = 1" and at1: "g1 i = 0"
    and other: "\<And>j. j < n \<Longrightarrow> j \<noteq> i \<Longrightarrow> g0 j = g1 j"
  shows "(\<Sum>j<n. g0 j) = (\<Sum>j<n. g1 j) + 1"
proof -
  have fin: "finite {..<n}" and mem: "i \<in> {..<n}" using i by simp_all
  have rest: "sum g0 ({..<n} - {i}) = sum g1 ({..<n} - {i})"
    by (rule sum.cong) (auto intro: other)
  have "sum g0 {..<n} = g0 i + sum g0 ({..<n} - {i})" by (rule sum.remove [OF fin mem])
  moreover have "sum g1 {..<n} = g1 i + sum g1 ({..<n} - {i})" by (rule sum.remove [OF fin mem])
  ultimately show ?thesis using rest at0 at1 by simp
qed

lemma contrastive_loss_sum:
  assumes len: "length y_true = length y_pred" and ne: "y_pred \<noteq> []"
  shows "contrastive_loss y_true y_pred =
           Some ((\<Sum>i<length y_pred.
                    y_true ! i * (y_pred ! i)\<^sup>2
                    + (1 - y_true ! i) * (max (1 - y_pred ! i) 0)\<^sup>2)
                 / real (length y_pred))"
proof -
  let ?sq = "map (\<lambda>p. p\<^sup>2) y_pred"
  let ?ms = "map (\<lambda>v. v\<^sup>2) (map (\<lambda>v. max v 0) (map (\<lambda>p. 1 - p) y_pred))"
  let ?a = "map2 (*) y_true ?sq"
  let ?b = "map2 (*) (map (\<lambda>t. 1 - t) y_true) ?ms"
  have la: "length ?a = length y_pred" and lb: "length ?b = length y_pred"
    using len by simp_all
  have l: "length ?a = length ?b" using la lb by simp
  have n: "?a \<noteq> []" using la ne by (metis length_0_conv)
  have "contrastive_loss y_true y_pred =
          Some ((\<Sum>i<length ?a. ?a ! i + ?b ! i) / real (length ?a))"
    unfolding contrastive_loss_def Let_def by (rule np_mean_map2 [OF l n])
  also have "(\<Sum>i<length ?a. ?a ! i + ?b ! i)
           = (\<Sum>i<length y_pred.
                    y_true ! i * (y_pred ! i)\<^sup>2
                    + (1 - y_true ! i) * (max (1 - y_pred ! i) 0)\<^sup>2)"
    using len by (intro sum.cong) simp_all
  finally show ?thesis using len by simp
qed

subsection \<open>Loss and accuracy: the claims\<close>

text \<open>
  C6. For a non-empty batch (labels and scores of the same length),
  \<open>contrastive_loss\<close> is the mean over the batch of
  \<open>y_true * y_pred\<^sup>2 + (1 - y_true) * (max (1 - y_pred) 0)\<^sup>2\<close>. When every label is 1 or 0
  the term of a pair labelled 1 is its score squared and the term of a pair labelled 0
  is \<open>(max (1 - score) 0)\<^sup>2\<close>: the margin is 1. The mean of an empty batch is NaN.
\<close>

theorem contrastive_loss_formula:
  assumes len: "length y_true = length y_pred" and ne: "y_pred \<noteq> []"
  shows "contrastive_loss y_true y_pred =
           Some ((\<Sum>i<length y_pred.
                    y_true ! i * (y_pred ! i)\<^sup>2
                    + (1 - y_true ! i) * (max (1 - y_pred ! i) 0)\<^sup>2)
                 / real (length y_pred))
       \<and> ((\<forall>i<length y_pred. y_true ! i = 1 \<or> y_true ! i = 0) \<longrightarrow>
            contrastive_loss y_true y_pred =
              Some ((\<Sum>i<length y_pred.
                       if y_true ! i = 1 then (y_pred ! i)\<^sup>2
                       else (max (1 - y_pred ! i) 0)\<^sup>2)
                    / real (length y_pred)))
       \<and> contrastive_loss [1] [p] = Some (p\<^sup>2)
       \<and> contrastive_loss [0] [p] = Some ((max (1 - p) 0)\<^sup>2)"
proof -
  note formula = contrastive_loss_sum [OF len ne]
  have binary: "contrastive_loss y_true y_pred =
              Some ((\<Sum>i<length y_pred.
                       if y_true ! i = 1 then (y_pred ! i)\<^sup>2
                       else (max (1 - y_pred ! i) 0)\<^sup>2)
                    / real (length y_pred))"
    if "\<forall>i<length y_pred. y_true ! i = 1 \<or> y_true ! i = 0"
  proof -
    have "(\<Sum>i<length y_pred.
                    y_true ! i * (y_pred ! i)\<^sup>2
                    + (1 - y_true ! i) * (max (1 - y_pred ! i) 0)\<^sup>2)
        = (\<Sum>i<length y_pred.
                       if y_true ! i = 1 then (y_pred ! i)\<^sup>2
                       else (max (1 - y_pred ! i) 0)\<^sup>2)"
      using that by (intro sum.cong) auto
    then show ?thesis by (simp only: formula)
  qed
  have one: "contrastive_loss [1] [p] = Some (p\<^sup>2)"
    by (simp add: contrastive_loss_def np_mean_def)
  have zero: "contrastive_loss [0] [p] = Some ((max (1 - p) 0)\<^sup>2)"
    by (simp add: contrastive_loss_def np_mean_def)
  from formula binary one zero show ?thesis by blast
qed

theorem contrastive_loss_formula_witness:
  "length [1, 0 :: real] = length [3 / 10, 4 / 10 :: real] \<and> [3 / 10, 4 / 10 :: real] \<noteq> []
   \<and> contrastive_loss [1, 0] [3 / 10, 4 / 10] = Some (9 / 40)"
proof -
  have len: "length [1, 0 :: real] = length [3 / 10, 4 / 10 :: real]" by simp
  have ne: "[3 / 10, 4 / 10 :: real] \<noteq> []" by simp
  have "(\<Sum>i<length [3 / 10, 4 / 10 :: real].
           [1, 0 :: real] ! i * ([3 / 10, 4 / 10] ! i)\<^sup>2
           + (1 - [1, 0] ! i) * (max (1 - [3 / 10, 4 / 10] ! i) 0)\<^sup>2) / real (length [3 / 10, 4 / 10 :: real])
        = 9 / 40"
    by (simp add: lessThan_Suc numeral_2_eq_2 power2_eq_square)
  then show ?thesis
    using contrastive_loss_formula [OF len ne] len ne by simp
qed

text \<open>
  C7. For two sequences of the same non-zero length, \<open>compute_accuracy\<close> is the number
  of positions at which \<open>(score < 0.5) == label\<close>, divided by the length; the threshold
  is 0.50. It is 1 when the comparison holds at every position and 0 when it fails at
  every position. (For empty sequences numpy's mean is NaN.)
\<close>

theorem compute_accuracy_fraction:
  assumes len: "length y_true = length y_pred" and ne: "y_pred \<noteq> []"
  shows "DISTANCE_THRESHOLD = 1 / 2
       \<and> compute_accuracy y_true y_pred =
           Some (real (card {i. i < length y_pred
                          \<and> (if y_pred ! i < DISTANCE_THRESHOLD then 1 else 0) = y_true ! i})
                 / real (length y_pred))
       \<and> ((\<forall>i<length y_pred. (if y_pred ! i < DISTANCE_THRESHOLD then 1 else 0) = y_true ! i)
            \<longrightarrow> compute_accuracy y_true y_pred = Some 1)
       \<and> ((\<forall>i<length y_pred. (if y_pred ! i < DISTANCE_THRESHOLD then 1 else 0) \<noteq> y_true ! i)
            \<longrightarrow> compute_accuracy y_true y_pred = Some 0)"
proof -
  let ?ok = "\<lambda>i. (if y_pred ! i < DISTANCE_THRESHOLD then 1 else 0) = y_true ! i"
  have thr: "DISTANCE_THRESHOLD = 1 / 2" by (simp add: DISTANCE_THRESHOLD_def)
  have frac: "compute_accuracy y_true y_pred =
                Some (real (card {i. i < length y_pred \<and> ?ok i}) / real (length y_pred))"
    unfolding compute_accuracy_sum [OF len ne] indicator_sum_card ..
  have pos: "0 < length y_pred" using ne by simp
  have all: "compute_accuracy y_true y_pred = Some 1" if "\<forall>i<length y_pred. ?ok i"
  proof -
    from that have "{i. i < length y_pred \<and> ?ok i} = {..<length y_pred}" by auto
    then show ?thesis using pos by (simp add: frac)
  qed
  have none: "compute_accuracy y_true y_pred = Some 0" if "\<forall>i<length y_pred. \<not> ?ok i"
  proof -
    from that have "{i. i < length y_pred \<and> ?ok i} = {}" by auto
    then show ?thesis by (simp add: frac)
  qed
  from thr frac all none show ?thesis by blast
qed

theorem compute_accuracy_fraction_witness:
  "length [1, 0 :: int] = length [1 / 5, 9 / 10 :: real] \<and> [1 / 5, 9 / 10 :: real] \<noteq> []
   \<and> compute_accuracy [1, 0] [1 / 5, 9 / 10] = Some 1"
proof -
  have len: "length [1, 0 :: int] = length [1 / 5, 9 / 10 :: real]" by simp
  have ne: "[1 / 5, 9 / 10 :: real] \<noteq> []" by simp
  have ok: "\<forall>i<length [1 / 5, 9 / 10 :: real].
              (if [1 / 5, 9 / 10 :: real] ! i < DISTANCE_THRESHOLD then 1 else 0) = [1, 0 :: int] ! i"
    by (simp add: DISTANCE_THRESHOLD_def less_Suc_eq numeral_2_eq_2)
  show ?thesis
    using compute_accuracy_fraction [OF len ne] ok len ne by blast
qed

text \<open>
  C10. A score equal to the threshold is a negative prediction, for \<open>compute_accuracy\<close>
  and for the metric \<open>acc\<close>: at a position whose score is exactly 0.50, the label 0
  counts as correct and the label 1 as misclassified, so that changing the label there
  from 1 to 0 raises the accuracy by exactly one position's share. A single pair with
  label 1 and score 0.50 has accuracy 0.
\<close>

theorem threshold_boundary_is_negative:
  fixes y_true :: "int list" and t_true :: "real list"
  assumes len: "length y_true = length y_pred" and tlen: "length t_true = length y_pred"
    and i: "i < length y_pred" and thr: "y_pred ! i = DISTANCE_THRESHOLD"
  shows "(\<exists>a. compute_accuracy (y_true[i := 1]) y_pred = Some a
            \<and> compute_accuracy (y_true[i := 0]) y_pred = Some (a + 1 / real (length y_pred)))
       \<and> (\<exists>a. acc (t_true[i := 1]) y_pred = Some a
            \<and> acc (t_true[i := 0]) y_pred = Some (a + 1 / real (length y_pred)))
       \<and> compute_accuracy [1] [DISTANCE_THRESHOLD] = Some 0
       \<and> acc [1] [DISTANCE_THRESHOLD] = Some 0"
proof -
  have ne: "y_pred \<noteq> []" using i by (cases y_pred) simp_all
  let ?n = "length y_pred"
  have pos: "0 < real ?n" using ne by simp
  let ?c = "\<lambda>ys j. if (if y_pred ! j < DISTANCE_THRESHOLD then 1 else 0) = (ys :: int list) ! j
                   then 1 else (0::real)"
  have iy: "i < length y_true" using i len by simp
  have c0: "?c (y_true[i := 0]) i = 1" using iy thr by simp
  have c1: "?c (y_true[i := 1]) i = 0" using iy thr by simp
  have c_other: "?c (y_true[i := 0]) j = ?c (y_true[i := 1]) j" if "j < ?n" "j \<noteq> i" for j
    using that by simp
  have "(\<Sum>j<?n. ?c (y_true[i := 0]) j) = (\<Sum>j<?n. ?c (y_true[i := 1]) j) + 1"
    by (rule boundary_sum_step [where ?g0.0 = "?c (y_true[i := 0])"
          and ?g1.0 = "?c (y_true[i := 1])", OF i c0 c1 c_other])
  then have part1: "\<exists>a. compute_accuracy (y_true[i := 1]) y_pred = Some a
            \<and> compute_accuracy (y_true[i := 0]) y_pred = Some (a + 1 / real ?n)"
    using len ne by (simp add: compute_accuracy_sum add_divide_distrib)
  let ?d = "\<lambda>ys j. if (ys :: real list) ! j = (if y_pred ! j < DISTANCE_THRESHOLD then 1 else 0)
                   then 1 else (0::real)"
  have it: "i < length t_true" using i tlen by simp
  have d0: "?d (t_true[i := 0]) i = 1" using it thr by simp
  have d1: "?d (t_true[i := 1]) i = 0" using it thr by simp
  have d_other: "?d (t_true[i := 0]) j = ?d (t_true[i := 1]) j" if "j < ?n" "j \<noteq> i" for j
    using that by simp
  have "(\<Sum>j<?n. ?d (t_true[i := 0]) j) = (\<Sum>j<?n. ?d (t_true[i := 1]) j) + 1"
    by (rule boundary_sum_step [where ?g0.0 = "?d (t_true[i := 0])"
          and ?g1.0 = "?d (t_true[i := 1])", OF i d0 d1 d_other])
  then have part2: "\<exists>a. acc (t_true[i := 1]) y_pred = Some a
            \<and> acc (t_true[i := 0]) y_pred = Some (a + 1 / real ?n)"
    using tlen ne by (simp add: acc_sum add_divide_distrib)
  have part3: "compute_accuracy [1] [DISTANCE_THRESHOLD] = Some 0"
    by (simp add: compute_accuracy_def np_mean_def)
  have part4: "acc [1] [DISTANCE_THRESHOLD] = Some 0"
    by (simp add: acc_def np_mean_def)
  from part1 part2 part3 part4 show ?thesis by blast
qed

theorem threshold_boundary_is_negative_witness:
  "length [1, 1 :: int] = length [1 / 5, 1 / 2 :: real]
   \<and> length [1, 1 :: real] = length [1 / 5, 1 / 2 :: real]
   \<and> (1::nat) < length [1 / 5, 1 / 2 :: real]
   \<and> [1 / 5, 1 / 2 :: real] ! 1 = DISTANCE_THRESHOLD
   \<and> compute_accuracy [1, 1] [1 / 5, 1 / 2] = Some (1 / 2)
   \<and> compute_accuracy [1, 0] [1 / 5, 1 / 2] = Some 1
   \<and> acc [1, 1] [1 / 5, 1 / 2] = Some (1 / 2)
   \<and> acc [1, 0] [1 / 5, 1 / 2] = Some 1"
proof -
  have len: "length [1, 1 :: int] = length [1 / 5, 1 / 2 :: real]" by simp
  have tlen: "length [1, 1 :: real] = length [1 / 5, 1 / 2 :: real]" by simp
  have i: "(1::nat) < length [1 / 5, 1 / 2 :: real]" by simp
  have thr: "[1 / 5, 1 / 2 :: real] ! 1 = DISTANCE_THRESHOLD"
    by (simp add: DISTANCE_THRESHOLD_def)
  have a1: "compute_accuracy [1, 1] [1 / 5, 1 / 2] = Some (1 / 2)"
    by (simp add: compute_accuracy_def np_mean_def DISTANCE_THRESHOLD_def)
  have b1: "acc [1, 1] [1 / 5, 1 / 2] = Some (1 / 2)"
    by (simp add: acc_def np_mean_def DISTANCE_THRESHOLD_def)
  from threshold_boundary_is_negative [OF len tlen i thr]
  have "\<exists>a. compute_accuracy [1, 1] [1 / 5, 1 / 2] = Some a
            \<and> compute_accuracy [1, 0] [1 / 5, 1 / 2] = Some (a + 1 / 2)"
    and "\<exists>a. acc [1, 1] [1 / 5, 1 / 2] = Some a
            \<and> acc [1, 0] [1 / 5, 1 / 2] = Some (a + 1 / 2)"
    by simp_all
  then have "compute_accuracy [1, 0] [1 / 5, 1 / 2] = Some 1"
    and "acc [1, 0] [1 / 5, 1 / 2] = Some 1"
    using a1 b1 by auto
  then show ?thesis using len tlen i thr a1 b1 by blast
qed

subsection \<open>Model selection\<close>

lemma create_simple_unknown:
  "bn \<notin> {''nn'', ''cnn'', ''fcn''} \<Longrightarrow>
     create_simple_siamese_model bn shape = Inl (Exception ''Unknown base network model type.'')"
  by (simp add: create_simple_siamese_model_def)

lemma create_dense_unknown:
  "bn \<notin> {''nn'', ''cnn'', ''fcn''} \<Longrightarrow>
     create_dense_siamese_model bn shape = Inl (Exception ''Unknown base network model type.'')"
  by (simp add: create_dense_siamese_model_def)

lemma model_selection_unknown:
  assumes "base_network a \<notin> {''nn'', ''cnn'', ''fcn''} \<or> model a \<notin> {''simple_head'', ''dense_head''}"
  shows "(if model a = ''simple_head''
            then create_simple_siamese_model (base_network a) shape
          else if model a = ''dense_head''
            then create_dense_siamese_model (base_network a) shape
          else Inl (Exception ''Unknown model type.''))
       = Inl (Exception (if model a \<in> {''simple_head'', ''dense_head''}
                         then ''Unknown base network model type.'' else ''Unknown model type.''))"
  using assms create_simple_unknown [of "base_network a" shape]
    create_dense_unknown [of "base_network a" shape]
  by auto

text \<open>
  C9. With a base-network identifier other than \<open>nn\<close>, \<open>cnn\<close>, \<open>fcn\<close>, or a model
  identifier other than \<open>simple_head\<close>, \<open>dense_head\<close>, main ends with an exception and
  has made no call on the model: no \<open>fit\<close> has run. When pair creation succeeds, the
  exception is the one raised by the model selection or by the construction function;
  both construction functions raise it for every unknown base network.
\<close>

theorem unknown_identifier_raises_before_training:
  assumes unknown: "base_network a \<notin> {''nn'', ''cnn'', ''fcn''}
                    \<or> model a \<notin> {''simple_head'', ''dense_head''}"
  shows "(\<exists>e. main_training a input_shape x_train y_train x_test y_test src = ([], Inl e))
       \<and> (\<forall>tr k1 te k2.
             create_pairs x_train (get_digit_indices y_train (examples_per_class a)) src 0
               = Inr (tr, k1)
             \<longrightarrow> create_pairs x_test (get_digit_indices y_test (examples_per_class a)) src k1
               = Inr (te, k2)
             \<longrightarrow> main_training a input_shape x_train y_train x_test y_test src
               = ([], Inl (Exception (if model a \<in> {''simple_head'', ''dense_head''}
                                      then ''Unknown base network model type.''
                                      else ''Unknown model type.''))))
       \<and> (base_network a \<notin> {''nn'', ''cnn'', ''fcn''} \<longrightarrow>
             create_simple_siamese_model (base_network a) input_shape
               = Inl (Exception ''Unknown base network model type.'')
           \<and> create_dense_siamese_model (base_network a) input_shape
               = Inl (Exception ''Unknown base network model type.''))"
proof -
  note sel = model_selection_unknown [OF unknown, of input_shape]
  have raises: "\<exists>e. main_training a input_shape x_train y_train x_test y_test src = ([], Inl e)"
    unfolding main_training_def sel by (simp split: sum.splits prod.splits)
  have which: "\<forall>tr k1 te k2.
             create_pairs x_train (get_digit_indices y_train (examples_per_class a)) src 0
               = Inr (tr, k1)
             \<longrightarrow> create_pairs x_test (get_digit_indices y_test (examples_per_class a)) src k1
               = Inr (te, k2)
             \<longrightarrow> main_training a input_shape x_train y_train x_test y_test src
               = ([], Inl (Exception (if model a \<in> {''simple_head'', ''dense_head''}
                                      then ''Unknown base network model type.''
                                      else ''Unknown model type.'')))"
    unfolding main_training_def sel by simp
  have ctor: "base_network a \<notin> {''nn'', ''cnn'', ''fcn''} \<longrightarrow>
             create_simple_siamese_model (base_network a) input_shape
               = Inl (Exception ''Unknown base network model type.'')
           \<and> create_dense_siamese_model (base_network a) input_shape
               = Inl (Exception ''Unknown base network model type.'')"
    using create_simple_unknown create_dense_unknown by blast
  from raises which ctor show ?thesis by blast
qed

theorem unknown_identifier_raises_before_training_witness:
  "base_network example_args = ''resnet''
   \<and> main_training example_args [28, 28, 1] example_labels example_labels example_labels
        example_labels example_draws
      = ([], Inl (Exception ''Unknown base network model type.''))"
proof -
  have unknown: "base_network example_args \<notin> {''nn'', ''cnn'', ''fcn''}
                 \<or> model example_args \<notin> {''simple_head'', ''dense_head''}"
    by (simp add: example_args_def)
  have bn: "base_network example_args = ''resnet''" by (simp add: example_args_def)
  have m: "model example_args \<in> {''simple_head'', ''dense_head''}" by (simp add: example_args_def)
  have p1: "create_pairs example_labels
              (get_digit_indices example_labels (examples_per_class example_args)) example_draws 0
            = Inr (([(0, 0), (0, 1), (1, 1), (1, 2), (2, 2), (2, 3), (3, 3), (3, 4), (4, 4), (4, 5),
            (5, 5), (5, 6), (6, 6), (6, 7), (7, 7), (7, 8), (8, 8), (8, 9), (9, 9), (9, 0)],
           [1, 0, 1, 0, 1, 0, 1, 0, 1, 0, 1, 0, 1, 0, 1, 0, 1, 0, 1, 0]), 20)"
    by code_simp
  have p2: "create_pairs example_labels
              (get_digit_indices example_labels (examples_per_class example_args)) example_draws 20
            = Inr (([(0, 0), (0, 1), (1, 1), (1, 2), (2, 2), (2, 3), (3, 3), (3, 4), (4, 4), (4, 5),
            (5, 5), (5, 6), (6, 6), (6, 7), (7, 7), (7, 8), (8, 8), (8, 9), (9, 9), (9, 0)],
           [1, 0, 1, 0, 1, 0, 1, 0, 1, 0, 1, 0, 1, 0, 1, 0, 1, 0, 1, 0]), 40)"
    by code_simp
  from unknown_identifier_raises_before_training [OF unknown, of "[28, 28, 1]" example_labels
      example_labels example_labels example_labels example_draws] p1 p2 m
  have "main_training example_args [28, 28, 1] example_labels example_labels example_labels
        example_labels example_draws
      = ([], Inl (Exception ''Unknown base network model type.''))"
    by simp
  with bn show ?thesis by simp
qed

subsection \<open>Aggregation classifier: helper lemmas\<close>

lemma efold_append:
  "efold f (xs @ ys) s = (case efold f xs s of Inl e \<Rightarrow> Inl e | Inr t \<Rightarrow> efold f ys t)"
  by (induction xs arbitrary: s) (simp_all split: sum.splits)

lemma efold_upt_invariant:
  assumes "efold f [a..<b] s = Inr s'" and "a \<le> b" and "P a s"
    and "\<And>d t t'. a \<le> d \<Longrightarrow> d < b \<Longrightarrow> P d t \<Longrightarrow> f d t = Inr t' \<Longrightarrow> P (Suc d) t'"
  shows "P b s'"
  using assms
proof (induction b arbitrary: s')
  case 0
  then show ?case by simp
next
  case (Suc b)
  show ?case
  proof (cases "a = Suc b")
    case True
    then show ?thesis using Suc.prems by simp
  next
    case False
    then have ab: "a \<le> b" using Suc.prems(2) by simp
    then have "[a..<Suc b] = [a..<b] @ [b]" by simp
    with Suc.prems(1) obtain t where t: "efold f [a..<b] s = Inr t" and last: "f b t = Inr s'"
      by (auto simp: efold_append split: sum.splits)
    have "P b t"
    proof (rule Suc.IH [OF t ab Suc.prems(3)])
      fix d u u'
      assume "a \<le> d" "d < b" "P d u" "f d u = Inr u'"
      then show "P (Suc d) u'" using Suc.prems(4) [of d u u'] by simp
    qed
    then show ?thesis using Suc.prems(4) [OF ab _ _ last] by simp
  qed
qed

lemma efold_upt_total:
  assumes "a \<le> b" and "P a s"
    and "\<And>d t. a \<le> d \<Longrightarrow> d < b \<Longrightarrow> P d t \<Longrightarrow> \<exists>t'. f d t = Inr t' \<and> P (Suc d) t'"
  shows "\<exists>s'. efold f [a..<b] s = Inr s' \<and> P b s'"
  using assms
proof (induction b)
  case 0
  then show ?case by simp
next
  case (Suc b)
  show ?case
  proof (cases "a = Suc b")
    case True
    then show ?thesis using Suc.prems by simp
  next
    case False
    then have ab: "a \<le> b" using Suc.prems(1) by simp
    then have split: "[a..<Suc b] = [a..<b] @ [b]" by simp
    have "\<exists>t. efold f [a..<b] s = Inr t \<and> P b t"
    proof (rule Suc.IH [OF ab Suc.prems(2)])
      fix d u
      assume "a \<le> d" "d < b" "P d u"
      then show "\<exists>t'. f d u = Inr t' \<and> P (Suc d) t'" using Suc.prems(3) [of d u] by simp
    qed
    then obtain t where t: "efold f [a..<b] s = Inr t" "P b t" by blast
    from Suc.prems(3) [OF ab _ t(2)] obtain s' where "f b t = Inr s'" "P (Suc b) s'" by auto
    then show ?thesis using t(1) ab by (simp add: efold_append)
  qed
qed

lemma spec_running_best_start: "spec_running_best better sentinel a 0 sentinel (- 1)"
  by (simp add: spec_running_best_def)

lemma spec_running_best_step:
  assumes asym: "\<And>x y. better x y \<Longrightarrow> \<not> better y x"
    and neg: "\<And>x y z. better z y \<Longrightarrow> \<not> better x y \<Longrightarrow> better z x"
    and inv: "spec_running_best better sentinel a m v l"
    and upd: "(v', l') = (if better (a m) v then (a m, int m) else (v, l))"
  shows "spec_running_best better sentinel a (Suc m) v' l'"
proof (cases "better (a m) v")
  case False
  then have same: "v' = v" "l' = l" using upd by simp_all
  from inv show ?thesis
    unfolding spec_running_best_def
  proof (elim disjE conjE exE)
    assume "l = - 1" "v = sentinel" "\<forall>d<m. \<not> better (a d) sentinel"
    then have "\<forall>d<Suc m. \<not> better (a d) sentinel" using False by (auto simp: less_Suc_eq)
    then show "(l' = - 1 \<and> v' = sentinel \<and> (\<forall>d<Suc m. \<not> better (a d) sentinel))
       \<or> (\<exists>c<Suc m. l' = int c \<and> v' = a c \<and> better (a c) sentinel
          \<and> (\<forall>d<Suc m. \<not> better (a d) (a c)) \<and> (\<forall>d<c. better (a c) (a d)))"
      using same \<open>l = - 1\<close> \<open>v = sentinel\<close> by simp
  next
    fix c
    assume c: "c < m" "l = int c" "v = a c" "better (a c) sentinel"
      "\<forall>d<m. \<not> better (a d) (a c)" "\<forall>d<c. better (a c) (a d)"
    then have "\<forall>d<Suc m. \<not> better (a d) (a c)" using False by (auto simp: less_Suc_eq)
    then have "c < Suc m \<and> l' = int c \<and> v' = a c \<and> better (a c) sentinel
          \<and> (\<forall>d<Suc m. \<not> better (a d) (a c)) \<and> (\<forall>d<c. better (a c) (a d))"
      using c same by simp
    then show "(l' = - 1 \<and> v' = sentinel \<and> (\<forall>d<Suc m. \<not> better (a d) sentinel))
       \<or> (\<exists>c<Suc m. l' = int c \<and> v' = a c \<and> better (a c) sentinel
          \<and> (\<forall>d<Suc m. \<not> better (a d) (a c)) \<and> (\<forall>d<c. better (a c) (a d)))"
      by blast
  qed
next
  case True
  then have new: "v' = a m" "l' = int m" using upd by simp_all
  have irrefl: "\<not> better (a m) (a m)" using asym by blast
  have earlier: "\<forall>d<m. better (a m) (a d)" and beats: "better (a m) sentinel"
  proof -
    from inv have "(\<forall>d<m. better (a m) (a d)) \<and> better (a m) sentinel"
      unfolding spec_running_best_def
    proof (elim disjE conjE exE)
      assume "v = sentinel" "\<forall>d<m. \<not> better (a d) sentinel"
      then show ?thesis using True neg by blast
    next
      fix c
      assume c: "v = a c" "better (a c) sentinel" "\<forall>d<m. \<not> better (a d) (a c)"
      have "\<not> better sentinel (a c)" using c(2) asym by blast
      then have "better (a m) sentinel" using True c(1) neg by blast
      moreover have "\<forall>d<m. better (a m) (a d)" using True c(1,3) neg by blast
      ultimately show ?thesis by blast
    qed
    then show "\<forall>d<m. better (a m) (a d)" and "better (a m) sentinel" by blast+
  qed
  have "\<forall>d<Suc m. \<not> better (a d) (a m)"
    using earlier asym irrefl by (auto simp: less_Suc_eq)
  then have "m < Suc m \<and> l' = int m \<and> v' = a m \<and> better (a m) sentinel
          \<and> (\<forall>d<Suc m. \<not> better (a d) (a m)) \<and> (\<forall>d<m. better (a m) (a d))"
    using new beats earlier by simp
  then show ?thesis unfolding spec_running_best_def by blast
qed

lemma assessment_criteria_asym:
  "assessment_criteria model_name x y \<Longrightarrow> \<not> assessment_criteria model_name y x"
  by (auto simp: assessment_criteria_def split: if_splits)

lemma assessment_criteria_neg:
  "assessment_criteria model_name z y \<Longrightarrow> \<not> assessment_criteria model_name x y
     \<Longrightarrow> assessment_criteria model_name z x"
  by (auto simp: assessment_criteria_def split: if_splits)

lemma spec_running_best_per_policy_start: "spec_running_best_per_policy model_name scores 0 (initial_best model_name)"
  by (simp add: spec_running_best_per_policy_def initial_best_def spec_running_best_def)

lemma image_pairs_step:
  assumes "ebind (getitem di d) (\<lambda>pool_d.
           ebind (getitem pool_d i) (\<lambda>z1.
           ebind (getitem x_train z1) (\<lambda>img.
           Inr (image_pairs @ [(img, test_img)])))) = Inr r"
  shows "r = image_pairs @ [(x_train ! (di ! d ! i), test_img)]"
  using assms by (simp add: ebind_getitem split: if_splits)

lemma image_pairs_step_ok:
  assumes "d < length di" "i < length (di ! d)" "di ! d ! i < length x_train"
  shows "ebind (getitem di d) (\<lambda>pool_d.
           ebind (getitem pool_d i) (\<lambda>z1.
           ebind (getitem x_train z1) (\<lambda>img.
           Inr (image_pairs @ [(img, test_img)]))))
         = Inr (image_pairs @ [(x_train ! (di ! d ! i), test_img)])"
  using assms by (simp add: ebind_getitem)

lemma class_predictions_Inr:
  assumes "class_predictions predict x_train di n test_img d = Inr ps"
  shows "ps = reference_scores predict x_train di n test_img d \<and> ps \<noteq> [] \<and> 0 < n"
proof -
  let ?f = "\<lambda>i image_pairs.
              ebind (getitem di d) (\<lambda>pool_d.
              ebind (getitem pool_d i) (\<lambda>z1.
              ebind (getitem x_train z1) (\<lambda>img.
              Inr (image_pairs @ [(img, test_img)]))))"
  let ?g = "\<lambda>i. (x_train ! (di ! d ! i), test_img)"
  from assms obtain ips where run: "efold ?f [0..<n] [] = Inr ips"
    and ne: "ips \<noteq> []" and ps: "ps = map (\<lambda>(a, b). predict a b) ips"
    by (auto simp: class_predictions_def ebind_eq_Inr split: if_splits)
  have "ips = map ?g [0..<n]"
  proof (rule efold_upt_invariant [where P = "\<lambda>m acc. acc = map ?g [0..<m]", OF run])
    show "0 \<le> n" by simp
    show "[] = map ?g [0..<0]" by simp
  next
    fix i t t'
    assume "t = map ?g [0..<i]" and "?f i t = Inr t'"
    then show "t' = map ?g [0..<Suc i]" using image_pairs_step [of di d i x_train t test_img t']
      by simp
  qed
  then have "ps = reference_scores predict x_train di n test_img d" "0 < n"
    using ps ne by (simp_all add: reference_scores_def)
  with ne ps show ?thesis by simp
qed

lemma class_predictions_ok:
  assumes d: "d < length di" and n: "0 < n" "n \<le> length (di ! d)"
    and inx: "\<forall>z\<in>set (di ! d). z < length x_train"
  shows "class_predictions predict x_train di n test_img d
           = Inr (reference_scores predict x_train di n test_img d)"
proof -
  let ?f = "\<lambda>i image_pairs.
              ebind (getitem di d) (\<lambda>pool_d.
              ebind (getitem pool_d i) (\<lambda>z1.
              ebind (getitem x_train z1) (\<lambda>img.
              Inr (image_pairs @ [(img, test_img)]))))"
  let ?g = "\<lambda>i. (x_train ! (di ! d ! i), test_img)"
  have "\<exists>ips. efold ?f [0..<n] [] = Inr ips \<and> ips = map ?g [0..<n]"
  proof (rule efold_upt_total [where P = "\<lambda>m acc. acc = map ?g [0..<m]"])
    show "0 \<le> n" by simp
    show "[] = map ?g [0..<0]" by simp
  next
    fix i t
    assume i: "i < n" and t: "t = map ?g [0..<i]"
    have 1: "i < length (di ! d)" using i n by simp
    then have 2: "di ! d ! i < length x_train" using inx by simp
    show "\<exists>t'. ?f i t = Inr t' \<and> t' = map ?g [0..<Suc i]"
      unfolding image_pairs_step_ok [OF d 1 2] using t by simp
  qed
  then have run: "efold ?f [0..<n] [] = Inr (map ?g [0..<n])" by simp
  have "map ?g [0..<n] \<noteq> []" using n(1) by simp
  then show ?thesis
    unfolding class_predictions_def run ebind_Inr
    by (simp add: reference_scores_def comp_def)
qed

lemma np_median_nonempty:
  "ps \<noteq> [] \<Longrightarrow> np_median ps =
     Some (if odd (length ps) then sort ps ! (length ps div 2)
           else (sort ps ! (length ps div 2 - 1) + sort ps ! (length ps div 2)) / 2)"
  by (simp add: np_median_def Let_def)

lemma np_median_Some: "ps \<noteq> [] \<Longrightarrow> \<exists>v. np_median ps = Some v"
  using np_median_nonempty by blast

lemma np_mean_Some: "ps \<noteq> [] \<Longrightarrow> \<exists>v. np_mean ps = Some v"
  by (simp add: np_mean_def)

lemma update_best_fields:
  assumes ne: "ps \<noteq> []"
  shows "\<exists>s'. update_best model_name d ps s = Inr s'
     \<and> (min_aggregated_distance s', min_aggregated_distance_label s') =
         (if assessment_criteria model_name (Min (set ps)) (min_aggregated_distance s)
          then (Min (set ps), int d)
          else (min_aggregated_distance s, min_aggregated_distance_label s))
     \<and> (median_aggregated_distance s', median_aggregated_distance_label s') =
         (if assessment_criteria model_name (the (np_median ps)) (median_aggregated_distance s)
          then (the (np_median ps), int d)
          else (median_aggregated_distance s, median_aggregated_distance_label s))
     \<and> (mean_aggregated_distance s', mean_aggregated_distance_label s') =
         (if assessment_criteria model_name (the (np_mean ps)) (mean_aggregated_distance s)
          then (the (np_mean ps), int d)
          else (mean_aggregated_distance s, mean_aggregated_distance_label s))"
proof -
  from np_median_Some [OF ne] obtain md where md: "np_median ps = Some md" by blast
  from np_mean_Some [OF ne] obtain mn where mn: "np_mean ps = Some mn" by blast
  show ?thesis
    using ne by (simp add: update_best_def np_min_def md mn Let_def)
qed

lemma spec_running_best_per_policy_step:
  assumes inv: "spec_running_best_per_policy model_name scores d s"
    and upd: "update_best model_name d (scores d) s = Inr s'"
    and ne: "scores d \<noteq> []"
  shows "spec_running_best_per_policy model_name scores (Suc d) s'"
proof -
  from update_best_fields [OF ne, of model_name d s] upd
  have f1: "(min_aggregated_distance s', min_aggregated_distance_label s') =
         (if assessment_criteria model_name (Min (set (scores d))) (min_aggregated_distance s)
          then (Min (set (scores d)), int d)
          else (min_aggregated_distance s, min_aggregated_distance_label s))"
    and f2: "(median_aggregated_distance s', median_aggregated_distance_label s') =
         (if assessment_criteria model_name (the (np_median (scores d))) (median_aggregated_distance s)
          then (the (np_median (scores d)), int d)
          else (median_aggregated_distance s, median_aggregated_distance_label s))"
    and f3: "(mean_aggregated_distance s', mean_aggregated_distance_label s') =
         (if assessment_criteria model_name (the (np_mean (scores d))) (mean_aggregated_distance s)
          then (the (np_mean (scores d)), int d)
          else (mean_aggregated_distance s, mean_aggregated_distance_label s))"
    by simp_all
  from inv have i1: "spec_running_best (assessment_criteria model_name)
       (if model_name = ''simple_head'' then 999 else - 999)
       (\<lambda>d. Min (set (scores d))) d
       (min_aggregated_distance s) (min_aggregated_distance_label s)"
    and i2: "spec_running_best (assessment_criteria model_name)
       (if model_name = ''simple_head'' then 999 else - 999)
       (\<lambda>d. the (np_median (scores d))) d
       (median_aggregated_distance s) (median_aggregated_distance_label s)"
    and i3: "spec_running_best (assessment_criteria model_name)
       (if model_name = ''simple_head'' then 999 else - 999)
       (\<lambda>d. the (np_mean (scores d))) d
       (mean_aggregated_distance s) (mean_aggregated_distance_label s)"
    by (simp_all add: spec_running_best_per_policy_def)
  have step: "spec_running_best (assessment_criteria model_name) S a (Suc m) v' l'"
    if "spec_running_best (assessment_criteria model_name) S a m v l"
      and "(v', l') = (if assessment_criteria model_name (a m) v then (a m, int m) else (v, l))"
    for S a m v l v' l'
  proof (rule spec_running_best_step [OF _ _ that])
    show "\<not> assessment_criteria model_name y x" if "assessment_criteria model_name x y" for x y
      using that by (rule assessment_criteria_asym)
    show "assessment_criteria model_name z x"
      if "assessment_criteria model_name z y" "\<not> assessment_criteria model_name x y" for x y z
      using that by (rule assessment_criteria_neg)
  qed
  show ?thesis
    unfolding spec_running_best_per_policy_def
    by (intro conjI step [OF i1 f1] step [OF i2 f2] step [OF i3 f3])
qed

lemma sum_list_less_bound:
  fixes S :: real
  assumes "ps \<noteq> []" and "\<forall>x\<in>set ps. x < S"
  shows "sum_list ps < real (length ps) * S"
  using assms
proof (induction ps rule: list_nonempty_induct)
  case (single x)
  then show ?case by simp
next
  case (cons x xs)
  then have "x < S" and "sum_list xs < real (length xs) * S" by simp_all
  then show ?case by (simp add: algebra_simps)
qed

lemma sum_list_greater_bound:
  fixes S :: real
  assumes "ps \<noteq> []" and "\<forall>x\<in>set ps. S < x"
  shows "real (length ps) * S < sum_list ps"
  using assms
proof (induction ps rule: list_nonempty_induct)
  case (single x)
  then show ?case by simp
next
  case (cons x xs)
  then have "S < x" and "real (length xs) * S < sum_list xs" by simp_all
  then show ?case by (simp add: algebra_simps)
qed

lemma min_beats:
  assumes "ps \<noteq> []" and "\<forall>x\<in>set ps. assessment_criteria model_name x S"
  shows "assessment_criteria model_name (Min (set ps)) S"
proof -
  have "Min (set ps) \<in> set ps" using assms(1) by (intro Min_in) simp_all
  then show ?thesis using assms(2) by blast
qed

lemma median_beats:
  assumes ne: "ps \<noteq> []" and all: "\<forall>x\<in>set ps. assessment_criteria model_name x S"
  shows "assessment_criteria model_name (the (np_median ps)) S"
proof -
  let ?s = "sort ps" and ?n = "length ps"
  have pos: "0 < ?n" using ne by simp
  have mem: "?s ! k \<in> set ps" if "k < ?n" for k
  proof -
    have "?s ! k \<in> set ?s" using that by (intro nth_mem) simp
    then show ?thesis by simp
  qed
  have hi: "assessment_criteria model_name (?s ! (?n div 2)) S"
    using mem [of "?n div 2"] pos all by simp
  have lo: "assessment_criteria model_name (?s ! (?n div 2 - 1)) S"
    using mem [of "?n div 2 - 1"] pos all by (simp add: less_imp_diff_less)
  have mid: "assessment_criteria model_name ((?s ! (?n div 2 - 1) + ?s ! (?n div 2)) / 2) S"
    using lo hi by (auto simp: assessment_criteria_def split: if_splits)
  show ?thesis
    using hi mid by (simp add: np_median_nonempty [OF ne])
qed

lemma mean_beats:
  assumes ne: "ps \<noteq> []" and all: "\<forall>x\<in>set ps. assessment_criteria model_name x S"
  shows "assessment_criteria model_name (the (np_mean ps)) S"
proof -
  have pos: "0 < real (length ps)" using ne by simp
  have mean: "the (np_mean ps) = sum_list ps / real (length ps)"
    using ne by (simp add: np_mean_def)
  show ?thesis
  proof (cases "model_name = ''simple_head''")
    case True
    then have "\<forall>x\<in>set ps. x < S" using all by (simp add: assessment_criteria_def)
    then have "sum_list ps < real (length ps) * S" by (rule sum_list_less_bound [OF ne])
    then have "sum_list ps / real (length ps) < S"
      using pos by (simp add: pos_divide_less_eq mult.commute)
    then show ?thesis using True by (simp add: assessment_criteria_def mean)
  next
    case False
    then have "\<forall>x\<in>set ps. S < x" using all by (simp add: assessment_criteria_def)
    then have "real (length ps) * S < sum_list ps" by (rule sum_list_greater_bound [OF ne])
    then have "S < sum_list ps / real (length ps)"
      using pos by (simp add: pos_less_divide_eq mult.commute)
    then show ?thesis using False by (simp add: assessment_criteria_def mean)
  qed
qed

lemma spec_running_best_marker:
  assumes "spec_running_best better sentinel a m v l"
  shows "(l = - 1 \<longleftrightarrow> (\<forall>d<m. \<not> better (a d) sentinel))
       \<and> (l = - 1 \<or> 0 \<le> l \<and> l < int m)"
  using assms unfolding spec_running_best_def by auto

lemma classify_image_total:
  assumes len: "NUM_CLASSES \<le> length tr_digit_indices"
    and two: "\<forall>d<NUM_CLASSES. 2 \<le> length (tr_digit_indices ! d)"
    and inx: "\<forall>d<NUM_CLASSES. \<forall>z\<in>set (tr_digit_indices ! d). z < length x_train"
  shows "\<exists>s m. min_pool_length tr_digit_indices = Inr m \<and> 2 \<le> m
           \<and> classify_image model_name predict x_train tr_digit_indices test_img = Inr s
           \<and> spec_running_best_per_policy model_name
                (reference_scores predict x_train tr_digit_indices (m - 1) test_img) NUM_CLASSES s"
proof -
  let ?f = "\<lambda>n d s. ebind (class_predictions predict x_train tr_digit_indices n test_img d)
                        (\<lambda>predictions. update_best model_name d predictions s)"
  have K: "0 < NUM_CLASSES" by (simp add: NUM_CLASSES_def)
  then obtain m where m: "min_pool_length tr_digit_indices = Inr m"
    using len by (auto simp: min_pool_length_def)
  from min_pool_length_Inr [OF m] two have m2: "2 \<le> m"
    and mle: "\<forall>d<NUM_CLASSES. m \<le> length (tr_digit_indices ! d)" by auto
  let ?scores = "reference_scores predict x_train tr_digit_indices (m - 1) test_img"
  have ne: "?scores d \<noteq> []" for d using m2 by (simp add: reference_scores_def)
  have "\<exists>s. efold (?f (m - 1)) [0..<NUM_CLASSES] (initial_best model_name) = Inr s
           \<and> spec_running_best_per_policy model_name ?scores NUM_CLASSES s"
  proof (rule efold_upt_total [where P = "spec_running_best_per_policy model_name ?scores"])
    show "0 \<le> NUM_CLASSES" by simp
    show "spec_running_best_per_policy model_name ?scores 0 (initial_best model_name)"
      by (rule spec_running_best_per_policy_start)
  next
    fix d t
    assume d: "d < NUM_CLASSES" and inv: "spec_running_best_per_policy model_name ?scores d t"
    have "class_predictions predict x_train tr_digit_indices (m - 1) test_img d = Inr (?scores d)"
      using d len m2 mle inx by (intro class_predictions_ok) auto
    moreover from update_best_fields [OF ne, of model_name d d t]
    obtain t' where upd: "update_best model_name d (?scores d) t = Inr t'" by blast
    moreover have "spec_running_best_per_policy model_name ?scores (Suc d) t'"
      using inv upd ne by (rule spec_running_best_per_policy_step)
    ultimately show "\<exists>t'. ?f (m - 1) d t = Inr t' \<and> spec_running_best_per_policy model_name ?scores (Suc d) t'"
      by simp
  qed
  then obtain s where
    loop: "efold (?f (m - 1)) [0..<NUM_CLASSES] (initial_best model_name) = Inr s"
    and inv: "spec_running_best_per_policy model_name ?scores NUM_CLASSES s" by blast
  have run: "classify_image model_name predict x_train tr_digit_indices test_img = Inr s"
    unfolding classify_image_def m ebind_Inr Let_def by (rule loop)
  from m m2 run inv show ?thesis by blast
qed

subsection \<open>Aggregation classifier: the claims\<close>

text \<open>
  C5. Whenever the classification of a query image returns, each of the three policies
  MIN, MEDIAN, MEAN holds the running best of its own per-class aggregates after all
  \<open>NUM_CLASSES\<close> classes: the comparison is strict (\<open>new < prev\<close> for the distance head,
  \<open>new > prev\<close> otherwise), so the recorded class is the first class with the best
  aggregate (a later class with an equal aggregate does not replace it), and the
  prediction of a policy is determined by the aggregates of that policy alone.
\<close>

theorem running_best_per_policy:
  assumes run: "classify_image model_name predict x_train tr_digit_indices test_img = Inr s"
  shows "\<exists>m. min_pool_length tr_digit_indices = Inr m \<and> 2 \<le> m
           \<and> spec_running_best_per_policy model_name
                (reference_scores predict x_train tr_digit_indices (m - 1) test_img) NUM_CLASSES s
           \<and> (\<forall>new prev. assessment_criteria model_name new prev
                  \<longleftrightarrow> (if model_name = ''simple_head'' then new < prev else new > prev))"
proof -
  let ?f = "\<lambda>n d s. ebind (class_predictions predict x_train tr_digit_indices n test_img d)
                        (\<lambda>predictions. update_best model_name d predictions s)"
  from run obtain m where m: "min_pool_length tr_digit_indices = Inr m"
    and loop: "efold (?f (m - 1)) [0..<NUM_CLASSES] (initial_best model_name) = Inr s"
    by (auto simp: classify_image_def ebind_eq_Inr Let_def)
  let ?scores = "reference_scores predict x_train tr_digit_indices (m - 1) test_img"
  let ?P = "\<lambda>d t. spec_running_best_per_policy model_name ?scores d t \<and> (0 < d \<longrightarrow> 0 < m - 1)"
  have "?P NUM_CLASSES s"
  proof (rule efold_upt_invariant [where P = ?P, OF loop])
    show "0 \<le> NUM_CLASSES" by simp
    show "?P 0 (initial_best model_name)" by (simp add: spec_running_best_per_policy_start)
  next
    fix d t t'
    assume inv: "?P d t" and step: "?f (m - 1) d t = Inr t'"
    from step obtain ps where
      ps: "class_predictions predict x_train tr_digit_indices (m - 1) test_img d = Inr ps"
      and upd: "update_best model_name d ps t = Inr t'"
      by (auto simp: ebind_eq_Inr)
    from class_predictions_Inr [OF ps] have eq: "ps = ?scores d" and ne0: "ps \<noteq> []"
      and n: "0 < m - 1" by blast+
    have ne: "?scores d \<noteq> []" using ne0 eq by simp
    have inv': "spec_running_best_per_policy model_name ?scores d t" using inv by simp
    have "spec_running_best_per_policy model_name ?scores (Suc d) t'"
      by (rule spec_running_best_per_policy_step [OF inv' upd [unfolded eq] ne])
    with n show "?P (Suc d) t'" by simp
  qed
  moreover have "0 < NUM_CLASSES" by (simp add: NUM_CLASSES_def)
  ultimately have "spec_running_best_per_policy model_name ?scores NUM_CLASSES s \<and> 2 \<le> m" by auto
  moreover have "\<forall>new prev. assessment_criteria model_name new prev
                  \<longleftrightarrow> (if model_name = ''simple_head'' then new < prev else new > prev)"
    by (simp add: assessment_criteria_def)
  ultimately show ?thesis using m by blast
qed

theorem running_best_per_policy_witness:
  "classify_image ''simple_head'' example_predict [0..<30] example_reference_pools 0
     = Inr \<lparr>min_aggregated_distance = 1 / 10, min_aggregated_distance_label = 0,
            median_aggregated_distance = 3 / 20, median_aggregated_distance_label = 1,
            mean_aggregated_distance = 3 / 20, mean_aggregated_distance_label = 1\<rparr>
   \<and> min_pool_length example_reference_pools = Inr 3"
proof -
  have run: "classify_image ''simple_head'' example_predict [0..<30] example_reference_pools 0
     = Inr \<lparr>min_aggregated_distance = 1 / 10, min_aggregated_distance_label = 0,
            median_aggregated_distance = 3 / 20, median_aggregated_distance_label = 1,
            mean_aggregated_distance = 3 / 20, mean_aggregated_distance_label = 1\<rparr>"
    by code_simp
  have m: "min_pool_length example_reference_pools = Inr 3" by code_simp
  from running_best_per_policy [OF run] obtain k where
    "min_pool_length example_reference_pools = Inr k" and "2 \<le> k" by blast
  with m have "min_pool_length example_reference_pools = Inr 3" by simp
  with run show ?thesis by simp
qed

text \<open>
  C8, as stated, fails: the sentinel 999 of the distance convention is beaten only by
  scores below 999. With a model whose distances are all 1000, ten classes and one
  scored reference pair per class, every predicted label is the invalid marker -1.
\<close>

theorem sentinel_not_beaten_counterexample:
  "classify_image ''simple_head'' far_predict [0..<20] example_pools 0
     = Inr \<lparr>min_aggregated_distance = 999, min_aggregated_distance_label = - 1,
            median_aggregated_distance = 999, median_aggregated_distance_label = - 1,
            mean_aggregated_distance = 999, mean_aggregated_distance_label = - 1\<rparr>"
  by code_simp

text \<open>
  C8, amended. When every class has at least two reference examples (so that at least
  one pair per class is scored) and the reference indices are valid, the classification
  of a query image returns, and the label predicted under a policy is the invalid marker
  -1 exactly when no class's aggregate under that policy beats the sentinel (is below
  999 under the distance convention, above -999 under the probability convention);
  otherwise it is a class in \<open>[0, NUM_CLASSES - 1]\<close>. In particular all three labels are
  classes as soon as every scored pair of some class beats the sentinel.
\<close>

theorem predicted_labels_are_classes:
  assumes len: "NUM_CLASSES \<le> length tr_digit_indices"
    and two: "\<forall>d<NUM_CLASSES. 2 \<le> length (tr_digit_indices ! d)"
    and inx: "\<forall>d<NUM_CLASSES. \<forall>z\<in>set (tr_digit_indices ! d). z < length x_train"
  shows "\<exists>s m. min_pool_length tr_digit_indices = Inr m
           \<and> classify_image model_name predict x_train tr_digit_indices test_img = Inr s
           \<and> (min_aggregated_distance_label s = - 1 \<longleftrightarrow>
                (\<forall>d<NUM_CLASSES. \<not> assessment_criteria model_name
                   (Min (set (reference_scores predict x_train tr_digit_indices (m - 1) test_img d)))
                   (if model_name = ''simple_head'' then 999 else - 999)))
           \<and> (min_aggregated_distance_label s = - 1
                \<or> 0 \<le> min_aggregated_distance_label s
                  \<and> min_aggregated_distance_label s < int NUM_CLASSES)
           \<and> (median_aggregated_distance_label s = - 1 \<longleftrightarrow>
                (\<forall>d<NUM_CLASSES. \<not> assessment_criteria model_name
                   (the (np_median
                      (reference_scores predict x_train tr_digit_indices (m - 1) test_img d)))
                   (if model_name = ''simple_head'' then 999 else - 999)))
           \<and> (median_aggregated_distance_label s = - 1
                \<or> 0 \<le> median_aggregated_distance_label s
                  \<and> median_aggregated_distance_label s < int NUM_CLASSES)
           \<and> (mean_aggregated_distance_label s = - 1 \<longleftrightarrow>
                (\<forall>d<NUM_CLASSES. \<not> assessment_criteria model_name
                   (the (np_mean
                      (reference_scores predict x_train tr_digit_indices (m - 1) test_img d)))
                   (if model_name = ''simple_head'' then 999 else - 999)))
           \<and> (mean_aggregated_distance_label s = - 1
                \<or> 0 \<le> mean_aggregated_distance_label s
                  \<and> mean_aggregated_distance_label s < int NUM_CLASSES)
           \<and> ((\<exists>d<NUM_CLASSES.
                  \<forall>x\<in>set (reference_scores predict x_train tr_digit_indices (m - 1) test_img d).
                    assessment_criteria model_name x
                      (if model_name = ''simple_head'' then 999 else - 999))
                \<longrightarrow> 0 \<le> min_aggregated_distance_label s
                  \<and> min_aggregated_distance_label s < int NUM_CLASSES
                  \<and> 0 \<le> median_aggregated_distance_label s
                  \<and> median_aggregated_distance_label s < int NUM_CLASSES
                  \<and> 0 \<le> mean_aggregated_distance_label s
                  \<and> mean_aggregated_distance_label s < int NUM_CLASSES)"
proof -
  let ?S = "if model_name = ''simple_head'' then 999 else - 999 :: real"
  from classify_image_total [OF len two inx, of model_name predict test_img]
  obtain s m where m: "min_pool_length tr_digit_indices = Inr m" and m2: "2 \<le> m"
    and run: "classify_image model_name predict x_train tr_digit_indices test_img = Inr s"
    and inv: "spec_running_best_per_policy model_name
                (reference_scores predict x_train tr_digit_indices (m - 1) test_img) NUM_CLASSES s"
    by blast
  let ?scores = "reference_scores predict x_train tr_digit_indices (m - 1) test_img"
  have ne: "?scores d \<noteq> []" for d using m2 by (simp add: reference_scores_def)
  from inv have i1: "spec_running_best (assessment_criteria model_name) ?S
       (\<lambda>d. Min (set (?scores d))) NUM_CLASSES
       (min_aggregated_distance s) (min_aggregated_distance_label s)"
    and i2: "spec_running_best (assessment_criteria model_name) ?S
       (\<lambda>d. the (np_median (?scores d))) NUM_CLASSES
       (median_aggregated_distance s) (median_aggregated_distance_label s)"
    and i3: "spec_running_best (assessment_criteria model_name) ?S
       (\<lambda>d. the (np_mean (?scores d))) NUM_CLASSES
       (mean_aggregated_distance s) (mean_aggregated_distance_label s)"
    by (simp_all add: spec_running_best_per_policy_def)
  note k1 = spec_running_best_marker [OF i1]
  note k2 = spec_running_best_marker [OF i2]
  note k3 = spec_running_best_marker [OF i3]
  have particular:
    "0 \<le> min_aggregated_distance_label s \<and> min_aggregated_distance_label s < int NUM_CLASSES
     \<and> 0 \<le> median_aggregated_distance_label s
     \<and> median_aggregated_distance_label s < int NUM_CLASSES
     \<and> 0 \<le> mean_aggregated_distance_label s
     \<and> mean_aggregated_distance_label s < int NUM_CLASSES"
    if "\<exists>d<NUM_CLASSES. \<forall>x\<in>set (?scores d). assessment_criteria model_name x ?S"
  proof -
    from that obtain d where d: "d < NUM_CLASSES"
      and beats: "\<forall>x\<in>set (?scores d). assessment_criteria model_name x ?S" by blast
    have b1: "assessment_criteria model_name (Min (set (?scores d))) ?S"
      by (rule min_beats [OF ne beats])
    have b2: "assessment_criteria model_name (the (np_median (?scores d))) ?S"
      by (rule median_beats [OF ne beats])
    have b3: "assessment_criteria model_name (the (np_mean (?scores d))) ?S"
      by (rule mean_beats [OF ne beats])
    have "min_aggregated_distance_label s \<noteq> - 1" using k1 d b1 by blast
    moreover have "median_aggregated_distance_label s \<noteq> - 1" using k2 d b2 by blast
    moreover have "mean_aggregated_distance_label s \<noteq> - 1" using k3 d b3 by blast
    ultimately show ?thesis using k1 k2 k3 by blast
  qed
  show ?thesis
    apply (rule exI [of _ s], rule exI [of _ m])
    using m run k1 k2 k3 particular by blast
qed

theorem predicted_labels_are_classes_witness:
  "NUM_CLASSES \<le> length example_reference_pools
   \<and> classify_image ''simple_head'' mixed_predict [0..<30] example_reference_pools 0
       = Inr \<lparr>min_aggregated_distance = 1 / 4, min_aggregated_distance_label = 1,
              median_aggregated_distance = 1 / 4, median_aggregated_distance_label = 1,
              mean_aggregated_distance = 1 / 4, mean_aggregated_distance_label = 1\<rparr>
   \<and> (\<exists>s. classify_image ''simple_head'' mixed_predict [0..<30] example_reference_pools 0 = Inr s
           \<and> 0 \<le> min_aggregated_distance_label s
           \<and> min_aggregated_distance_label s < int NUM_CLASSES
           \<and> 0 \<le> median_aggregated_distance_label s
           \<and> median_aggregated_distance_label s < int NUM_CLASSES
           \<and> 0 \<le> mean_aggregated_distance_label s
           \<and> mean_aggregated_distance_label s < int NUM_CLASSES)"
proof -
  have len: "NUM_CLASSES \<le> length example_reference_pools" by code_simp
  have "\<forall>d\<in>set [0..<NUM_CLASSES]. 2 \<le> length (example_reference_pools ! d)" by code_simp
  then have two: "\<forall>d<NUM_CLASSES. 2 \<le> length (example_reference_pools ! d)" by simp
  have "\<forall>d\<in>set [0..<NUM_CLASSES]. \<forall>z\<in>set (example_reference_pools ! d). z < length [0..<30]"
    by code_simp
  then have inx: "\<forall>d<NUM_CLASSES. \<forall>z\<in>set (example_reference_pools ! d). z < length [0..<30]"
    by simp
  have run: "classify_image ''simple_head'' mixed_predict [0..<30] example_reference_pools 0
       = Inr \<lparr>min_aggregated_distance = 1 / 4, min_aggregated_distance_label = 1,
              median_aggregated_distance = 1 / 4, median_aggregated_distance_label = 1,
              mean_aggregated_distance = 1 / 4, mean_aggregated_distance_label = 1\<rparr>"
    by code_simp
  have pool: "min_pool_length example_reference_pools = Inr 3" by code_simp
  have one: "(1::nat) < NUM_CLASSES" by (simp add: NUM_CLASSES_def)
  have beats: "\<forall>x\<in>set (reference_scores mixed_predict [0..<30] example_reference_pools (3 - 1) 0 1).
                 assessment_criteria ''simple_head'' x
                   (if ''simple_head'' = ''simple_head'' then 999 else - 999)"
    by code_simp
  from predicted_labels_are_classes [OF len two inx, of "''simple_head''" mixed_predict 0]
  obtain s m where m: "min_pool_length example_reference_pools = Inr m"
    and s: "classify_image ''simple_head'' mixed_predict [0..<30] example_reference_pools 0 = Inr s"
    and imp: "(\<exists>d<NUM_CLASSES.
                  \<forall>x\<in>set (reference_scores mixed_predict [0..<30] example_reference_pools (m - 1) 0 d).
                    assessment_criteria ''simple_head'' x
                      (if ''simple_head'' = ''simple_head'' then 999 else - 999))
                \<longrightarrow> 0 \<le> min_aggregated_distance_label s
                  \<and> min_aggregated_distance_label s < int NUM_CLASSES
                  \<and> 0 \<le> median_aggregated_distance_label s
                  \<and> median_aggregated_distance_label s < int NUM_CLASSES
                  \<and> 0 \<le> mean_aggregated_distance_label s
                  \<and> mean_aggregated_distance_label s < int NUM_CLASSES"
    by blast
  from m pool have "m = 3" by simp
  with imp one beats have "0 \<le> min_aggregated_distance_label s
                  \<and> min_aggregated_distance_label s < int NUM_CLASSES
                  \<and> 0 \<le> median_aggregated_distance_label s
                  \<and> median_aggregated_distance_label s < int NUM_CLASSES
                  \<and> 0 \<le> mean_aggregated_distance_label s
                  \<and> mean_aggregated_distance_label s < int NUM_CLASSES"
    by blast
  with s have "\<exists>s. classify_image ''simple_head'' mixed_predict [0..<30] example_reference_pools 0 = Inr s
           \<and> 0 \<le> min_aggregated_distance_label s
           \<and> min_aggregated_distance_label s < int NUM_CLASSES
           \<and> 0 \<le> median_aggregated_distance_label s
           \<and> median_aggregated_distance_label s < int NUM_CLASSES
           \<and> 0 \<le> mean_aggregated_distance_label s
           \<and> mean_aggregated_distance_label s < int NUM_CLASSES"
    by blast
  with len run show ?thesis by blast
qed

end
